theory Spec2Isabelle
  imports Complex_Main "HOL-Library.Multiset"
begin

section \<open>JavaScript strings\<close>

text \<open>
  A JavaScript string is modelled as a \<open>string\<close> (a list of characters). The model
  covers ASCII text: \<open>toUpperCase\<close> and \<open>toLowerCase\<close> change the letters a-z and A-Z
  only, and the white space of \<open>trim\<close> and of the regular expression class \<open>\s\<close> is
  tab, line feed, vertical tab, form feed, carriage return and space.
\<close>

definition isSpace :: "char \<Rightarrow> bool" where
  "isSpace c = (c \<in> set [CHR 0x09, CHR 0x0A, CHR 0x0B, CHR 0x0C, CHR 0x0D, CHR '' ''])"

definition isDigit :: "char \<Rightarrow> bool" where
  "isDigit c = (c \<in> set ''0123456789'')"

text \<open>The class \<open>.\<close> of a regular expression: any character but a line terminator.\<close>

definition isDot :: "char \<Rightarrow> bool" where
  "isDot c = (c \<noteq> CHR 0x0A \<and> c \<noteq> CHR 0x0D)"

definition upperChar :: "char \<Rightarrow> char" where
  "upperChar c =
     (case map_of (zip ''abcdefghijklmnopqrstuvwxyz'' ''ABCDEFGHIJKLMNOPQRSTUVWXYZ'') c of
        None \<Rightarrow> c | Some u \<Rightarrow> u)"

definition lowerChar :: "char \<Rightarrow> char" where
  "lowerChar c =
     (case map_of (zip ''ABCDEFGHIJKLMNOPQRSTUVWXYZ'' ''abcdefghijklmnopqrstuvwxyz'') c of
        None \<Rightarrow> c | Some l \<Rightarrow> l)"

definition toUpperCase :: "string \<Rightarrow> string" where
  "toUpperCase s = map upperChar s"

definition toLowerCase :: "string \<Rightarrow> string" where
  "toLowerCase s = map lowerChar s"

definition trim :: "string \<Rightarrow> string" where
  "trim s = rev (dropWhile isSpace (rev (dropWhile isSpace s)))"

text \<open>
  \<open>s.startsWith(p)\<close> and \<open>s.includes(sub)\<close> (named \<open>includesStr\<close>: \<open>includes\<close> is a
  keyword of Isabelle).
\<close>

definition startsWith :: "string \<Rightarrow> string \<Rightarrow> bool" where
  "startsWith s p = (take (length p) s = p)"

fun includesStr :: "string \<Rightarrow> string \<Rightarrow> bool" where
  "includesStr [] sub = (sub = [])"
| "includesStr (c # cs) sub = (startsWith (c # cs) sub \<or> includesStr cs sub)"

text \<open>\<open>s.replace(/\s+/g, ' ')\<close>: every maximal run of white space becomes one space.\<close>

function collapseSpaces :: "string \<Rightarrow> string" where
  "collapseSpaces [] = []"
| "collapseSpaces (c # cs) =
     (if isSpace c then CHR '' '' # collapseSpaces (dropWhile isSpace cs)
      else c # collapseSpaces cs)"
  by pat_completeness auto
termination
  by (relation "measure length") (auto simp: le_imp_less_Suc length_dropWhile_le)

text \<open>\<open>s.replace(/\s+/g, '')\<close>: all white space is removed.\<close>

definition removeSpaces :: "string \<Rightarrow> string" where
  "removeSpaces s = filter (\<lambda>c. \<not> isSpace c) s"

section \<open>Record Normalizer: the product name\<close>

text \<open>
  \<open>parseProductName\<close> matches its argument against the regular expression
  \<^verbatim>\<open>/(\d{4})\s+(.+?)\s+-\s+(\d+)/\<close>. The expression is a sequence of character classes,
  each with a quantifier, some of them captured. \<open>matchPieces\<close> is the backtracking
  matcher at one start position: a greedy quantifier tries the longest run first, a lazy
  one the shortest, and the first attempt whose continuation matches wins.
  \<open>searchFrom\<close> is \<open>String.prototype.match\<close> without the global flag: it tries every
  start position from left to right and returns the captures of the first match.
\<close>

datatype quantifier = Exactly nat | PlusGreedy | PlusLazy

datatype piece = Piece (cls: "char \<Rightarrow> bool") (quant: quantifier) (captured: bool)

definition candidates :: "quantifier \<Rightarrow> nat \<Rightarrow> nat list" where
  "candidates q run =
     (case q of
        Exactly n \<Rightarrow> (if n \<le> run then [n] else [])
      | PlusGreedy \<Rightarrow> rev [1..<Suc run]
      | PlusLazy \<Rightarrow> [1..<Suc run])"

fun firstSome :: "(nat \<Rightarrow> 'a option) \<Rightarrow> nat list \<Rightarrow> 'a option" where
  "firstSome f [] = None"
| "firstSome f (k # ks) = (case f k of Some r \<Rightarrow> Some r | None \<Rightarrow> firstSome f ks)"

fun matchPieces :: "piece list \<Rightarrow> string \<Rightarrow> string list option" where
  "matchPieces [] s = Some []"
| "matchPieces (Piece c q cap # ps) s =
     firstSome
       (\<lambda>k. case matchPieces ps (drop k s) of
              None \<Rightarrow> None
            | Some caps \<Rightarrow> Some (if cap then take k s # caps else caps))
       (candidates q (length (takeWhile c s)))"

fun searchFrom :: "piece list \<Rightarrow> string \<Rightarrow> string list option" where
  "searchFrom ps [] = matchPieces ps []"
| "searchFrom ps (c # cs) =
     (case matchPieces ps (c # cs) of Some caps \<Rightarrow> Some caps | None \<Rightarrow> searchFrom ps cs)"

definition nameRegex :: "piece list" where
  "nameRegex =
     [Piece isDigit (Exactly 4) True,
      Piece isSpace PlusGreedy False,
      Piece isDot PlusLazy True,
      Piece isSpace PlusGreedy False,
      Piece (\<lambda>c. c = CHR ''-'') (Exactly 1) False,
      Piece isSpace PlusGreedy False,
      Piece isDigit PlusGreedy True]"

record parsedName =
  year :: string
  model :: string
  productId :: string

text \<open>\<open>caps ! 0\<close>, \<open>caps ! 1\<close> and \<open>caps ! 2\<close> are \<open>match[1]\<close>, \<open>match[2]\<close> and \<open>match[3]\<close>.\<close>

definition parseProductName :: "string \<Rightarrow> parsedName" where
  "parseProductName nameText =
     (if nameText = [] then \<lparr>year = [], model = [], productId = []\<rparr>
      else case searchFrom nameRegex nameText of
             Some caps \<Rightarrow> \<lparr>year = caps ! 0, model = caps ! 1, productId = caps ! 2\<rparr>
           | None \<Rightarrow> \<lparr>year = [], model = nameText, productId = []\<rparr>)"

section \<open>Detail Fetcher\<close>

text \<open>
  A request that fails (network error, timeout, or a status outside 2xx, for which
  axios rejects) is an \<open>error\<close>. A detail page is what the parsing adapter reads from
  it: the rows of the product information section, each a label text and a value text.
\<close>

datatype error = NetworkError | Timeout | HttpStatus nat | OtherError string

record details =
  location :: string
  hours :: string

type_synonym detailRows = "(string \<times> string) list"

definition BASE_URL :: string where
  "BASE_URL = ''https://www.akrs.com''"

definition fullUrl :: "string \<Rightarrow> string" where
  "fullUrl productUrl = (if startsWith productUrl ''http'' then productUrl else BASE_URL @ productUrl)"

text \<open>The loop over the rows: a later row overwrites an earlier one.\<close>

fun readRows :: "detailRows \<Rightarrow> details \<Rightarrow> details" where
  "readRows [] d = d"
| "readRows ((l, v) # rows) d =
     (let label = toLowerCase (trim l); val = trim v
      in readRows rows
           (if includesStr label ''location'' then d\<lparr>location := val\<rparr>
            else if includesStr label ''hour'' \<or> includesStr label ''hrs'' then d\<lparr>hours := val\<rparr>
            else d))"

text \<open>The body of the \<open>try\<close> block of \<open>scrapeProductDetails\<close>.\<close>

definition scrapeProductDetails_try :: "(string \<Rightarrow> error + detailRows) \<Rightarrow> string \<Rightarrow> error + details" where
  "scrapeProductDetails_try httpGet productUrl =
     (case httpGet (fullUrl productUrl) of
        Inl e \<Rightarrow> Inl e
      | Inr rows \<Rightarrow> Inr (readRows rows \<lparr>location = [], hours = []\<rparr>))"

text \<open>
  \<open>scrapeProductDetails\<close> with its \<open>catch\<close> block. The result type keeps the error
  case of an asynchronous function, so that "never thrown onward" is a statement.
\<close>

definition scrapeProductDetails :: "(string \<Rightarrow> error + detailRows) \<Rightarrow> string \<Rightarrow> error + details" where
  "scrapeProductDetails httpGet productUrl =
     (case scrapeProductDetails_try httpGet productUrl of
        Inl e \<Rightarrow> Inr \<lparr>location = [], hours = []\<rparr>
      | Inr d \<Rightarrow> Inr d)"

section \<open>Batch Scheduler\<close>

text \<open>
  An asynchronous per-item function is modelled by what it does when its item
  completes: it reads and updates the state shared with its caller and settles with a
  result or an error. Within a window the items complete in the order of their
  latencies (ties in input order); \<open>Promise.all\<close> stores each result at the index of its
  item, and rejects at the first item that fails. The effects of items still in flight
  at a rejection are not modelled. The delay between windows is not modelled.
\<close>

type_synonym ('a, 'b, 's) asyncFn = "'a \<Rightarrow> 's \<Rightarrow> (error + 'b) \<times> 's"

definition completionOrder :: "(nat \<Rightarrow> nat) \<Rightarrow> nat \<Rightarrow> nat list" where
  "completionOrder latency n = sort_key latency [0..<n]"

fun settleAll :: "('a, 'b, 's) asyncFn \<Rightarrow> 'a list \<Rightarrow> nat list \<Rightarrow> 'b option list \<Rightarrow> 's
    \<Rightarrow> (error + 'b option list) \<times> 's" where
  "settleAll f batch [] slots s = (Inr slots, s)"
| "settleAll f batch (j # js) slots s =
     (case f (batch ! j) s of
        (Inl e, s') \<Rightarrow> (Inl e, s')
      | (Inr v, s') \<Rightarrow> settleAll f batch js (slots[j := Some v]) s')"

definition promiseAll :: "('a, 'b, 's) asyncFn \<Rightarrow> 'a list \<Rightarrow> (nat \<Rightarrow> nat) \<Rightarrow> 's
    \<Rightarrow> (error + 'b list) \<times> 's" where
  "promiseAll f batch latency s =
     (case settleAll f batch (completionOrder latency (length batch))
             (replicate (length batch) None) s of
        (Inl e, s') \<Rightarrow> (Inl e, s')
      | (Inr slots, s') \<Rightarrow> (Inr (map the slots), s'))"

text \<open>
  The loop of \<open>processBatch\<close>, from index \<open>i\<close> with the results so far. With a batch
  size of 0 the index never advances and the loop does not return: the value is \<open>None\<close>.
  \<open>latency k\<close> is the completion time of the item at index \<open>k\<close> of \<open>items\<close>.
\<close>

partial_function (option) processBatch_loop ::
  "'a list \<Rightarrow> nat \<Rightarrow> ('a, 'b, 's) asyncFn \<Rightarrow> (nat \<Rightarrow> nat) \<Rightarrow> nat \<Rightarrow> 'b list \<Rightarrow> 's
    \<Rightarrow> ((error + 'b list) \<times> 's) option" where
  "processBatch_loop items batchSize processFn latency i results s =
     (if i < length items then
        (case promiseAll processFn (take batchSize (drop i items)) (\<lambda>j. latency (i + j)) s of
           (Inl e, s') \<Rightarrow> Some (Inl e, s')
         | (Inr batchResults, s') \<Rightarrow>
             processBatch_loop items batchSize processFn latency (i + batchSize)
               (results @ batchResults) s')
      else Some (Inr results, s))"

declare processBatch_loop.simps [code]

definition processBatch ::
  "'a list \<Rightarrow> nat \<Rightarrow> ('a, 'b, 's) asyncFn \<Rightarrow> (nat \<Rightarrow> nat) \<Rightarrow> 's
    \<Rightarrow> ((error + 'b list) \<times> 's) option" where
  "processBatch items batchSize processFn latency s =
     processBatch_loop items batchSize processFn latency 0 [] s"

section \<open>Pagination Controller: the equipment catalogue\<close>

text \<open>
  A tile is what the parsing adapter extracts from one product tile of a listing page
  (the price cleaned, the badges joined, the category read from the link). A product
  is the object \<open>scrapeEquipment\<close> builds from it: the fields \<open>year\<close>, \<open>model\<close> and
  \<open>productId\<close> are grouped in \<open>parsed\<close>, the fields \<open>location\<close> and \<open>hours\<close> in
  \<open>detail\<close>.
\<close>

record tile =
  tileBrand :: string
  tileName :: string
  tileUrl :: string
  tilePrice :: string
  tileStatus :: string
  tileCategory :: string
  tileImage :: string

record product =
  productName :: string
  brand :: string
  parsed :: parsedName
  price :: string
  status :: string
  category :: string
  productUrl :: string
  imageUrl :: string
  detail :: details

definition mkProduct :: "tile \<Rightarrow> product" where
  "mkProduct t =
     \<lparr>productName = tileName t, brand = tileBrand t, parsed = parseProductName (tileName t),
      price = tilePrice t, status = tileStatus t, category = tileCategory t,
      productUrl = tileUrl t, imageUrl = tileImage t,
      detail = \<lparr>location = [], hours = []\<rparr>\<rparr>"

text \<open>
  The web site and the file system, as \<open>scrapeEquipment\<close> meets them for one catalogue
  URL: the listing page requested for a page number (the request fails or the page
  parses into tiles), the write of the first page's debug file, the detail page of a
  product URL, and the completion time of the detail fetch of a page's item.
\<close>

record site =
  listingPage :: "nat \<Rightarrow> error + tile list"
  debugWrite :: "error option"
  detailPage :: "string \<Rightarrow> error + detailRows"
  detailLatency :: "nat \<Rightarrow> nat \<Rightarrow> nat"

definition productsPerPage :: nat where
  "productsPerPage = 12"

definition BATCH_SIZE :: nat where
  "BATCH_SIZE = 10"

text \<open>Request a listing page, save the first page for debugging, select the tiles.\<close>

definition fetchTiles :: "site \<Rightarrow> nat \<Rightarrow> error + tile list" where
  "fetchTiles env pageNum =
     (case listingPage env pageNum of
        Inl e \<Rightarrow> Inl e
      | Inr tiles \<Rightarrow>
          (if pageNum = 0 then (case debugWrite env of Some e \<Rightarrow> Inl e | None \<Rightarrow> Inr tiles)
           else Inr tiles))"

text \<open>The product with the details of its detail page, as the callback leaves it.\<close>

definition enrichProduct :: "site \<Rightarrow> product \<Rightarrow> error + product" where
  "enrichProduct env p =
     (case scrapeProductDetails (detailPage env) (productUrl p) of
        Inl e \<Rightarrow> Inl e
      | Inr d \<Rightarrow> Inr (p\<lparr>detail := d\<rparr>))"

text \<open>
  The callback \<open>scrapeEquipment\<close> passes to \<open>processBatch\<close>: it pushes the enriched
  product on \<open>products\<close> when the product's detail fetch completes.
\<close>

definition enrich :: "site \<Rightarrow> (product, product, product list) asyncFn" where
  "enrich env p products =
     (case enrichProduct env p of
        Inl e \<Rightarrow> (Inl e, products)
      | Inr p' \<Rightarrow> (Inr p', products @ [p']))"

text \<open>
  The \<open>while\<close> loop inside the \<open>try\<close> block, from page \<open>pageNum\<close> with the products
  pushed so far. The result is how the block ends (\<open>Inl\<close>: an exception reached the
  \<open>catch\<close> block), the products, and the page numbers requested, in order.
\<close>

function scrapeLoop :: "site \<Rightarrow> nat \<Rightarrow> nat \<Rightarrow> product list \<Rightarrow> nat list
    \<Rightarrow> ((error + unit) \<times> product list \<times> nat list) option" where
  "scrapeLoop env maxPages pageNum products fetched =
     (if pageNum < maxPages then
        (case fetchTiles env pageNum of
           Inl e \<Rightarrow> Some (Inl e, products, fetched @ [pageNum])
         | Inr tiles \<Rightarrow>
             (if length tiles = 0 then Some (Inr (), products, fetched @ [pageNum])
              else
                (case processBatch (map mkProduct tiles) BATCH_SIZE (enrich env)
                        (detailLatency env pageNum) products of
                   None \<Rightarrow> None
                 | Some (Inl e, products') \<Rightarrow> Some (Inl e, products', fetched @ [pageNum])
                 | Some (Inr batchResults, products') \<Rightarrow>
                     (if length tiles \<ge> productsPerPage
                      then scrapeLoop env maxPages (pageNum + 1) products' (fetched @ [pageNum])
                      else Some (Inr (), products', fetched @ [pageNum])))))
      else Some (Inr (), products, fetched))"
  by pat_completeness auto
termination
  by (relation "measure (\<lambda>(env, maxPages, pageNum, products, fetched). maxPages - pageNum)") auto

declare scrapeLoop.simps [simp del]

text \<open>
  \<open>scrapeEquipment\<close>: both the end of the \<open>try\<close> block and the \<open>catch\<close> block return
  \<open>products\<close>. The second component is the list of listing pages requested.
\<close>

definition scrapeEquipment :: "site \<Rightarrow> nat \<Rightarrow> ((error + product list) \<times> nat list) option" where
  "scrapeEquipment env maxPages =
     (case scrapeLoop env maxPages 0 [] [] of
        None \<Rightarrow> None
      | Some (Inl e, products, fetched) \<Rightarrow> Some (Inr products, fetched)
      | Some (Inr u, products, fetched) \<Rightarrow> Some (Inr products, fetched))"

section \<open>Pagination Controller: Tractor House\<close>

text \<open>
  A listing of the Tractor House crawl. The filter before the push reads \<open>title\<close>,
  \<open>make\<close> and \<open>model\<close> (here \<open>listingMake\<close> and \<open>listingModel\<close>: \<open>make\<close> is taken by
  the record package, \<open>model\<close> by the parsed name). The other fields of the source's
  object (price, hours, URLs, ...) live in the record's extension, and the clean-up of
  price, description and URLs before the filter is the function \<open>cleanFields\<close> on it.
\<close>

record listing =
  title :: string
  listingMake :: string
  listingModel :: string

text \<open>
  The browser, as \<open>scrapeInventoryListings\<close> meets it: launching it and opening a page,
  navigating to a page number (with the first page's challenge wait and debug capture),
  the count of listing cards (0 when the evaluation fails), the cards' data, and whether
  the page links to a next page.
\<close>

record 'a browser =
  launch :: "error option"
  navigate :: "nat \<Rightarrow> error option"
  cardCount :: "nat \<Rightarrow> nat"
  scrapedData :: "nat \<Rightarrow> error + 'a listing_scheme list"
  hasNextPage :: "nat \<Rightarrow> error + bool"
  cleanFields :: "'a \<Rightarrow> 'a"

definition maxPages_th :: nat where
  "maxPages_th = 50"

text \<open>\<open>item.title || item.model || item.make\<close>: a string is truthy when it is not empty.\<close>

definition meaningful :: "'a listing_scheme \<Rightarrow> bool" where
  "meaningful l = (title l \<noteq> [] \<or> listingModel l \<noteq> [] \<or> listingMake l \<noteq> [])"

definition cleanItem :: "'a browser \<Rightarrow> 'a listing_scheme \<Rightarrow> 'a listing_scheme" where
  "cleanItem env l = l\<lparr>listing.more := cleanFields env (listing.more l)\<rparr>"

text \<open>
  The \<open>while\<close> loop, from page \<open>pageNum\<close> with the listings pushed so far. An exception
  is caught and logged, and the function returns the listings all the same, so the
  result is the listings and the page numbers navigated to, in order.
\<close>

function thLoop :: "'a browser \<Rightarrow> nat \<Rightarrow> 'a listing_scheme list \<Rightarrow> nat list
    \<Rightarrow> 'a listing_scheme list \<times> nat list" where
  "thLoop env pageNum listings fetched =
     (if pageNum \<le> maxPages_th then
        (case navigate env pageNum of
           Some e \<Rightarrow> (listings, fetched @ [pageNum])
         | None \<Rightarrow>
             (if cardCount env pageNum = 0 then (listings, fetched @ [pageNum])
              else
                (case scrapedData env pageNum of
                   Inl e \<Rightarrow> (listings, fetched @ [pageNum])
                 | Inr cards \<Rightarrow>
                     (let listings' = listings @ filter meaningful (map (cleanItem env) cards)
                      in case hasNextPage env pageNum of
                           Inl e \<Rightarrow> (listings', fetched @ [pageNum])
                         | Inr nextPage \<Rightarrow>
                             (if \<not> nextPage \<or> cardCount env pageNum < 20
                              then (listings', fetched @ [pageNum])
                              else thLoop env (pageNum + 1) listings' (fetched @ [pageNum]))))))
      else (listings, fetched))"
  by pat_completeness auto
termination
  by (relation "measure (\<lambda>(env, pageNum, listings, fetched). Suc maxPages_th - pageNum)") auto

declare thLoop.simps [simp del]

definition scrapeInventoryListings :: "'a browser \<Rightarrow> 'a listing_scheme list \<times> nat list" where
  "scrapeInventoryListings env =
     (case launch env of
        Some e \<Rightarrow> ([], [])
      | None \<Rightarrow> thLoop env 1 [] [])"

section \<open>Cross-Source Matcher\<close>

text \<open>
  An item is the object the analyzer collects from a spreadsheet row. A field the row
  never set is \<open>undefined\<close> in the source and \<open>None\<close> here.
\<close>

record item =
  itemYear :: "string option"
  itemMake :: "string option"
  itemModel :: "string option"
  itemLocation :: "string option"
  itemHours :: "string option"

text \<open>\<open>x || ''\<close> for a string or \<open>undefined\<close>.\<close>

definition orEmpty :: "string option \<Rightarrow> string" where
  "orEmpty x = (case x of None \<Rightarrow> [] | Some s \<Rightarrow> s)"

definition normalize :: "string \<Rightarrow> string" where
  "normalize str = (if str = [] then [] else collapseSpaces (trim (toUpperCase str)))"

definition createMatchKey :: "item \<Rightarrow> string" where
  "createMatchKey it =
     (let yr = orEmpty (itemYear it);
          mk = normalize (orEmpty (itemMake it));
          mdl = normalize (orEmpty (itemModel it));
          loc = normalize (orEmpty (itemLocation it))
      in yr @ ''|'' @ mk @ ''|'' @ mdl @ ''|'' @ loc)"

text \<open>The guard \<open>key && key !== '|||'\<close>.\<close>

definition usableKey :: "string \<Rightarrow> bool" where
  "usableKey key = (key \<noteq> [] \<and> key \<noteq> ''|||'')"

text \<open>The first loop: the \<open>Map\<close> from match key to used item, a later item replacing
  an earlier one with the same key.\<close>

fun buildUsedKeys :: "item list \<Rightarrow> (string \<rightharpoonup> item) \<Rightarrow> (string \<rightharpoonup> item)" where
  "buildUsedKeys [] usedKeys = usedKeys"
| "buildUsedKeys (it # its) usedKeys =
     (let key = createMatchKey it
      in buildUsedKeys its (if usableKey key then usedKeys(key \<mapsto> it) else usedKeys))"

text \<open>The second loop: the count of Tractor House items whose key is in the map.\<close>

fun countDuplicates :: "(string \<rightharpoonup> item) \<Rightarrow> item list \<Rightarrow> nat \<Rightarrow> nat" where
  "countDuplicates usedKeys [] duplicates = duplicates"
| "countDuplicates usedKeys (it # its) duplicates =
     (let key = createMatchKey it
      in countDuplicates usedKeys its
           (if usableKey key \<and> usedKeys key \<noteq> None then duplicates + 1 else duplicates))"

text \<open>
  The overlap is the number 0, or the string \<open>toFixed(1)\<close> makes of a quotient. The
  quotient is kept exact: \<open>ToFixed1 q\<close> stands for the text of \<open>q\<close> rounded to one
  decimal; floating-point rounding and the formatting are not modelled.
\<close>

datatype overlap = Number rat | ToFixed1 rat

record duplicateInfo =
  duplicates :: nat
  overlapPercent :: overlap
  uniqueUsed :: int
  uniqueTractorHouse :: int
  totalUnique :: int

definition detectDuplicates :: "item list \<Rightarrow> item list \<Rightarrow> duplicateInfo" where
  "detectDuplicates usedItems tractorHouseItems =
     (let usedKeys = buildUsedKeys usedItems Map.empty;
          dups = countDuplicates usedKeys tractorHouseItems 0;
          percent = (if length usedItems > 0
                     then ToFixed1 (of_nat dups / of_nat (length usedItems) * 100)
                     else Number 0);
          uUsed = int (length usedItems) - int dups;
          uTractorHouse = int (length tractorHouseItems) - int dups
      in \<lparr>duplicates = dups, overlapPercent = percent, uniqueUsed = uUsed,
          uniqueTractorHouse = uTractorHouse, totalUnique = uUsed + uTractorHouse\<rparr>)"

section \<open>Location Aggregator: the reconciliation analyzer\<close>

text \<open>
  The table of stores, by name. Of a store's entry only the city label is kept; the
  latitude and longitude (floating-point constants) are left out.
\<close>

definition STORE_LOCATIONS :: "(string \<times> string) list" where
  "STORE_LOCATIONS =
     [(''AINSWORTH'', ''Ainsworth, NE''), (''ALBION'', ''Albion, NE''),
      (''AUBURN'', ''Auburn, NE''), (''AURORA'', ''Aurora, NE''),
      (''BROKEN BOW'', ''Broken Bow, NE''), (''CENTRAL CITY'', ''Central City, NE''),
      (''CRETE'', ''Crete, NE''), (''DAVID CITY'', ''David City, NE''),
      (''ELKHORN'', ''Elkhorn, NE''), (''GENEVA'', ''Geneva, NE''),
      (''GRAND ISLAND'', ''Grand Island, NE''), (''GRETNA'', ''Gretna, NE''),
      (''MCCOOK'', ''McCook, NE''), (''NELIGH'', ''Neligh, NE''),
      (''NORFOLK'', ''Norfolk, NE''), (''NORTH PLATTE'', ''North Platte, NE''),
      (''O'' @ [CHR 0x27] @ ''NEILL'', ''O'' @ [CHR 0x27] @ ''Neill, NE''),
      (''OBERLIN'', ''Oberlin, KS''), (''ORD'', ''Ord, NE''),
      (''OSCEOLA'', ''Osceola, NE''), (''PLAINVIEW'', ''Plainview, NE''),
      (''RAVENNA'', ''Ravenna, NE''), (''SEWARD'', ''Seward, NE''),
      (''SPALDING'', ''Spalding, NE''), (''ST. PAUL'', ''St. Paul, NE''),
      (''SYRACUSE'', ''Syracuse, NE''), (''YORK'', ''York, NE'')]"

text \<open>
  A cell is its column number and its value as text (\<open>cell.value?.toString()\<close>, \<open>None\<close>
  for a cell without a value). A worksheet is its name, the cells of its first row and
  the cells of each later row. A file is its name and what reading it gives.
\<close>

type_synonym cell = "nat \<times> string option"

record worksheet =
  wsName :: string
  headerCells :: "cell list"
  dataRows :: "cell list list"

type_synonym excelFile = "string \<times> (error + worksheet list)"

record locationStat =
  total_l :: nat
  new_l :: nat
  used_l :: nat
  tractorHouse_l :: nat
  coordinates :: "string option"

record byType =
  new_t :: nat
  used_t :: nat
  tractorHouse_t :: nat

record analysis =
  locationStats :: "string \<rightharpoonup> locationStat"
  totalByType :: byType
  allUsed :: "item list"
  allTractorHouse :: "item list"
  totalProducts :: nat

text \<open>The header of each column: lower case, white space removed.\<close>

fun readHeaders :: "cell list \<Rightarrow> (nat \<rightharpoonup> string) \<Rightarrow> (nat \<rightharpoonup> string)" where
  "readHeaders [] headers = headers"
| "readHeaders ((colNumber, v) # cells) headers =
     readHeaders cells (headers(colNumber := map_option (\<lambda>s. removeSpaces (toLowerCase s)) v))"

text \<open>
  One cell of a data row: the item and the location so far, updated by the header of
  the cell's column and then by the store table.
\<close>

definition readCell :: "(nat \<rightharpoonup> string) \<Rightarrow> cell \<Rightarrow> item \<times> string option \<Rightarrow> item \<times> string option" where
  "readCell headers c st =
     (let header = headers (fst c);
          val = map_option trim (snd c);
          upper = map_option (\<lambda>s. trim (toUpperCase s)) val;
          (it, loc) = st;
          (it1, loc1) =
            (if header = Some ''year'' then (it\<lparr>itemYear := val\<rparr>, loc)
             else if header = Some ''make'' \<or> header = Some ''brand'' then (it\<lparr>itemMake := val\<rparr>, loc)
             else if header = Some ''model'' then (it\<lparr>itemModel := val\<rparr>, loc)
             else if header = Some ''location'' then (it\<lparr>itemLocation := upper\<rparr>, upper)
             else if header = Some ''hours'' then (it\<lparr>itemHours := val\<rparr>, loc)
             else (it, loc))
      in case upper of
           None \<Rightarrow> (it1, loc1)
         | Some u \<Rightarrow>
             (if map_of STORE_LOCATIONS u \<noteq> None then (it1\<lparr>itemLocation := Some u\<rparr>, Some u)
              else (it1, loc1)))"

definition emptyItem :: item where
  "emptyItem = \<lparr>itemYear = None, itemMake = None, itemModel = None, itemLocation = None,
                itemHours = None\<rparr>"

definition readRow :: "(nat \<rightharpoonup> string) \<Rightarrow> cell list \<Rightarrow> item \<times> string option" where
  "readRow headers cells = fold (readCell headers) cells (emptyItem, None)"

text \<open>
  The block under \<open>if (location)\<close>, for a row of a sheet \<open>sheetName\<close> (in lower case)
  of a file that is or is not a Tractor House file.
\<close>

definition countRow :: "bool \<Rightarrow> string \<Rightarrow> item \<Rightarrow> string \<Rightarrow> analysis \<Rightarrow> analysis" where
  "countRow isTractorHouse sheetName it loc a =
     (let st0 = (case locationStats a loc of
                   None \<Rightarrow> \<lparr>total_l = 0, new_l = 0, used_l = 0, tractorHouse_l = 0,
                             coordinates = map_of STORE_LOCATIONS loc\<rparr>
                 | Some st \<Rightarrow> st);
          st1 = st0\<lparr>total_l := total_l st0 + 1\<rparr>;
          a1 =
            (if isTractorHouse \<and> (includesStr sheetName ''tractor'' \<or> includesStr sheetName ''inventory'')
             then a\<lparr>locationStats := (locationStats a)(loc \<mapsto> st1\<lparr>tractorHouse_l := tractorHouse_l st1 + 1\<rparr>),
                    totalByType := (totalByType a)\<lparr>tractorHouse_t := tractorHouse_t (totalByType a) + 1\<rparr>,
                    allTractorHouse := allTractorHouse a @ [it]\<rparr>
             else if includesStr sheetName ''new''
             then a\<lparr>locationStats := (locationStats a)(loc \<mapsto> st1\<lparr>new_l := new_l st1 + 1\<rparr>),
                    totalByType := (totalByType a)\<lparr>new_t := new_t (totalByType a) + 1\<rparr>\<rparr>
             else if includesStr sheetName ''used''
             then a\<lparr>locationStats := (locationStats a)(loc \<mapsto> st1\<lparr>used_l := used_l st1 + 1\<rparr>),
                    totalByType := (totalByType a)\<lparr>used_t := used_t (totalByType a) + 1\<rparr>,
                    allUsed := allUsed a @ [it]\<rparr>
             else a\<lparr>locationStats := (locationStats a)(loc \<mapsto> st1)\<rparr>)
      in a1\<lparr>totalProducts := totalProducts a1 + 1\<rparr>)"

text \<open>One data row: counted when its location is a non-empty string.\<close>

definition processRow :: "bool \<Rightarrow> string \<Rightarrow> (nat \<rightharpoonup> string) \<Rightarrow> cell list \<Rightarrow> analysis \<Rightarrow> analysis" where
  "processRow isTractorHouse sheetName headers cells a =
     (case readRow headers cells of
        (it, Some loc) \<Rightarrow> (if loc \<noteq> [] then countRow isTractorHouse sheetName it loc a else a)
      | (it, None) \<Rightarrow> a)"

definition processSheet :: "bool \<Rightarrow> worksheet \<Rightarrow> analysis \<Rightarrow> analysis" where
  "processSheet isTractorHouse ws a =
     fold (processRow isTractorHouse (toLowerCase (wsName ws))
             (readHeaders (headerCells ws) Map.empty))
       (dataRows ws) a"

text \<open>The loop over the files: a file that cannot be read ends the analysis with its error.\<close>

fun processFiles :: "excelFile list \<Rightarrow> analysis \<Rightarrow> error + analysis" where
  "processFiles [] a = Inr a"
| "processFiles ((filename, content) # files) a =
     (case content of
        Inl e \<Rightarrow> Inl e
      | Inr worksheets \<Rightarrow>
          processFiles files
            (fold (processSheet (includesStr filename ''tractor-house'')) worksheets a))"

definition analyzeExcelData :: "excelFile list \<Rightarrow> error + analysis" where
  "analyzeExcelData filenames =
     processFiles filenames
       \<lparr>locationStats = Map.empty,
        totalByType = \<lparr>new_t = 0, used_t = 0, tractorHouse_t = 0\<rparr>,
        allUsed = [], allTractorHouse = [], totalProducts = 0\<rparr>"

section \<open>Location Aggregator: inventory tiers\<close>

text \<open>
  The two heat-map generators colour a location by its total count. Both use the same
  three colours, which the source's comments and legends name high (red), medium
  (orange) and low (green); they differ in the thresholds only.
\<close>

datatype tier = HIGH | MEDIUM | LOW

definition tierColor :: "tier \<Rightarrow> string" where
  "tierColor t = (case t of HIGH \<Rightarrow> ''#d32f2f'' | MEDIUM \<Rightarrow> ''#ff9800'' | LOW \<Rightarrow> ''#4caf50'')"

text \<open>\<open>getColor\<close> of the single-file heat map: thresholds 50 and 20.\<close>

definition getColor :: "int \<Rightarrow> string" where
  "getColor cnt =
     (if cnt > 50 then ''#d32f2f''
      else if cnt > 20 then ''#ff9800''
      else ''#4caf50'')"

text \<open>\<open>getColor\<close> of the combined (reconciliation) heat map: thresholds 150 and 100.\<close>

definition getColor_combined :: "int \<Rightarrow> string" where
  "getColor_combined cnt =
     (if cnt > 150 then ''#d32f2f''
      else if cnt > 100 then ''#ff9800''
      else ''#4caf50'')"

section \<open>Notions used in the statements\<close>

text \<open>
  The definitions of this section are not functions of the source: they name what the
  properties below speak about.
\<close>

subsection \<open>Batch Scheduler and Detail Fetcher\<close>

text \<open>
  \<open>resultOf f x v\<close>: the per-item function \<open>f\<close>, applied to \<open>x\<close>, settles with the
  result \<open>v\<close> (in some state of its caller). \<open>neverFails f xs\<close>: on every item of \<open>xs\<close>
  it settles with a result, whatever the state.
\<close>

definition resultOf :: "('a, 'b, 's) asyncFn \<Rightarrow> 'a \<Rightarrow> 'b \<Rightarrow> bool" where
  "resultOf f x v = (\<exists>s. fst (f x s) = Inr v)"

definition neverFails :: "('a, 'b, 's) asyncFn \<Rightarrow> 'a list \<Rightarrow> bool" where
  "neverFails f xs = (\<forall>x\<in>set xs. \<forall>s. \<exists>v. fst (f x s) = Inr v)"

text \<open>
  The details \<open>scrapeProductDetails\<close> returns for a product URL, the product as the
  callback of \<open>scrapeEquipment\<close> leaves it, and the labels that a row must have for
  \<open>readRows\<close> to read it.
\<close>

definition detailsOrDefault :: "(string \<Rightarrow> error + detailRows) \<Rightarrow> string \<Rightarrow> details" where
  "detailsOrDefault httpGet url =
     (case httpGet (fullUrl url) of
        Inl e \<Rightarrow> \<lparr>location = [], hours = []\<rparr>
      | Inr rows \<Rightarrow> readRows rows \<lparr>location = [], hours = []\<rparr>)"

definition enriched :: "site \<Rightarrow> product \<Rightarrow> product" where
  "enriched env p = p\<lparr>detail := detailsOrDefault (detailPage env) (productUrl p)\<rparr>"

definition relevantLabel :: "string \<Rightarrow> bool" where
  "relevantLabel l =
     (let label = toLowerCase (trim l)
      in includesStr label ''location'' \<or> includesStr label ''hour'' \<or> includesStr label ''hrs'')"

subsection \<open>Pagination Controller\<close>

text \<open>
  The records of listing page \<open>k\<close> in the order of its tiles, and whether the page is
  full (parsed, with at least \<open>productsPerPage\<close> tiles). \<open>samePages env blocks pages\<close>:
  the blocks are the records of the pages, one block a page, each block in some order
  (the callback pushes a record when its detail fetch completes).
\<close>

definition pageRecords :: "site \<Rightarrow> nat \<Rightarrow> product list" where
  "pageRecords env k =
     (case fetchTiles env k of
        Inl e \<Rightarrow> []
      | Inr tiles \<Rightarrow> map (enriched env) (map mkProduct tiles))"

definition fullPage :: "site \<Rightarrow> nat \<Rightarrow> bool" where
  "fullPage env k =
     (case fetchTiles env k of Inl e \<Rightarrow> False | Inr tiles \<Rightarrow> productsPerPage \<le> length tiles)"

definition samePages :: "site \<Rightarrow> product list list \<Rightarrow> nat list \<Rightarrow> bool" where
  "samePages env blocks pages = list_all2 (\<lambda>b k. mset b = mset (pageRecords env k)) blocks pages"

text \<open>
  What a run of \<open>scrapeLoop\<close> from page \<open>n\<close> looks like: it requests the pages from
  \<open>n\<close> up to \<open>m\<close>, every page before the last one is full, the last one is not full
  unless the page limit is reached, the run ends with an error exactly when the last
  page could not be fetched, and the products gained are the records of the pages.
\<close>

definition crawlShape :: "site \<Rightarrow> nat \<Rightarrow> nat \<Rightarrow> product list \<Rightarrow> nat list
    \<Rightarrow> (error + unit) \<Rightarrow> product list \<Rightarrow> nat \<Rightarrow> product list list \<Rightarrow> bool" where
  "crawlShape env maxPages n ps f out ps' m blocks =
     (scrapeLoop env maxPages n ps f = Some (out, ps', f @ [n..<m]) \<and>
      n \<le> m \<and> (n < maxPages \<longrightarrow> n < m) \<and> (n < m \<longrightarrow> m \<le> maxPages) \<and>
      (\<forall>k. n \<le> k \<and> Suc k < m \<longrightarrow> fullPage env k) \<and>
      (n < m \<and> m < maxPages \<longrightarrow> \<not> fullPage env (m - 1)) \<and>
      (\<forall>e. (out = Inl e) = (n < m \<and> fetchTiles env (m - 1) = Inl e)) \<and>
      ps' = ps @ concat blocks \<and> samePages env blocks [n..<m])"

text \<open>
  For the Tractor House crawl: the listings pushed for page \<open>k\<close>, whether the page's
  cards were scraped, whether the crawl goes on after the page, the number of cards
  parsed on the scraped pages, and what a run of \<open>thLoop\<close> from page \<open>n\<close> looks like.
\<close>

definition pageListings :: "'a browser \<Rightarrow> nat \<Rightarrow> 'a listing_scheme list" where
  "pageListings env k =
     (case scrapedData env k of
        Inl e \<Rightarrow> []
      | Inr cards \<Rightarrow> filter meaningful (map (cleanItem env) cards))"

definition scraped :: "'a browser \<Rightarrow> nat \<Rightarrow> bool" where
  "scraped env k = (navigate env k = None \<and> cardCount env k \<noteq> 0)"

definition continues :: "'a browser \<Rightarrow> nat \<Rightarrow> bool" where
  "continues env k =
     (navigate env k = None \<and> 20 \<le> cardCount env k \<and>
      (\<exists>cards. scrapedData env k = Inr cards) \<and> hasNextPage env k = Inr True)"

definition tilesParsed :: "'a browser \<Rightarrow> nat list \<Rightarrow> nat" where
  "tilesParsed env pages =
     sum_list (map (\<lambda>k. case scrapedData env k of Inl e \<Rightarrow> 0 | Inr cards \<Rightarrow> length cards)
                 (filter (scraped env) pages))"

definition thShape :: "'a browser \<Rightarrow> nat \<Rightarrow> 'a listing_scheme list \<Rightarrow> nat list
    \<Rightarrow> 'a listing_scheme list \<Rightarrow> nat \<Rightarrow> bool" where
  "thShape env n ls f ls' m =
     (thLoop env n ls f = (ls', f @ [n..<m]) \<and> n \<le> m \<and>
      (\<forall>k. n \<le> k \<and> Suc k < m \<longrightarrow> continues env k) \<and>
      ls' = ls @ concat (map (pageListings env) (filter (scraped env) [n..<m])))"

subsection \<open>Location Aggregator\<close>

text \<open>
  The sum of the per-source counters of a location, the entry of a location before a
  row is counted (the fresh entry when there is none), whether a sheet of a file matches
  a source category, and the invariant of the aggregation.
\<close>

definition sourceSum :: "locationStat \<Rightarrow> nat" where
  "sourceSum st = new_l st + used_l st + tractorHouse_l st"

definition statOrZero :: "analysis \<Rightarrow> string \<Rightarrow> locationStat" where
  "statOrZero a loc =
     (case locationStats a loc of
        None \<Rightarrow> \<lparr>total_l = 0, new_l = 0, used_l = 0, tractorHouse_l = 0,
                  coordinates = map_of STORE_LOCATIONS loc\<rparr>
      | Some st \<Rightarrow> st)"

definition attributed :: "bool \<Rightarrow> string \<Rightarrow> bool" where
  "attributed isTractorHouse sheet =
     ((isTractorHouse \<and> (includesStr sheet ''tractor'' \<or> includesStr sheet ''inventory'')) \<or>
      includesStr sheet ''new'' \<or> includesStr sheet ''used'')"

definition countersBounded :: "analysis \<Rightarrow> bool" where
  "countersBounded a = (\<forall>loc st. locationStats a loc = Some st \<longrightarrow> sourceSum st \<le> total_l st)"

section \<open>Example inputs\<close>

text \<open>Concrete inputs at which the properties below are evaluated.\<close>

definition noYear :: item where
  "noYear = \<lparr>itemYear = None, itemMake = Some ''John Deere'', itemModel = Some ''5095M'',
             itemLocation = Some ''GRETNA'', itemHours = None\<rparr>"

definition tractor1 :: item where
  "tractor1 = \<lparr>itemYear = Some ''2024'', itemMake = Some ''JOHN DEERE'', itemModel = Some ''5095M'',
             itemLocation = Some ''GRETNA'', itemHours = None\<rparr>"

definition tractor2 :: item where
  "tractor2 = \<lparr>itemYear = Some ''2019'', itemMake = Some ''JOHN DEERE'', itemModel = Some ''8R 250'',
             itemLocation = Some ''YORK'', itemHours = None\<rparr>"

definition usedSheet :: worksheet where
  "usedSheet =
     \<lparr>wsName = ''Used Equipment'',
      headerCells = [(1, Some ''Year''), (2, Some ''Brand''), (3, Some ''Model''), (4, Some ''Location'')],
      dataRows = [[(1, Some ''2024''), (2, Some ''John Deere''), (3, Some ''5095M''), (4, Some ''Gretna'')],
                  [(1, Some ''2019''), (2, Some ''John Deere''), (3, Some ''8R 250''), (4, Some ''York'')]]\<rparr>"

definition otherSheet :: worksheet where
  "otherSheet =
     \<lparr>wsName = ''Summary'',
      headerCells = [(1, Some ''Store'')],
      dataRows = [[(1, Some ''gretna '')]]\<rparr>"

definition exampleFiles :: "excelFile list" where
  "exampleFiles = [(''akrs-all-equipment-2024.xlsx'', Inr [usedSheet, otherSheet])]"

definition exampleBrowser :: "unit browser" where
  "exampleBrowser =
     \<lparr>launch = None,
      navigate = (\<lambda>n. None),
      cardCount = (\<lambda>n. if n = 1 then 2 else 0),
      scrapedData = (\<lambda>n. Inr [\<lparr>title = ''2025 JOHN DEERE 9RX 640'', listingMake = ''JOHN DEERE'',
                                listingModel = ''9RX 640''\<rparr>,
                              \<lparr>title = [], listingMake = [], listingModel = []\<rparr>]),
      hasNextPage = (\<lambda>n. Inr True),
      cleanFields = (\<lambda>u. u)\<rparr>"


definition exampleLatency :: "nat \<Rightarrow> nat" where
  "exampleLatency k = 10 - k"

definition tileA :: tile where
  "tileA = \<lparr>tileBrand = ''John Deere'', tileName = ''2024 5095M - 431539'',
            tileUrl = ''/en-us/tractors/5095m/431539.html'', tilePrice = ''$96,977.25'',
            tileStatus = ''New'', tileCategory = ''tractors'', tileImage = ''/img/431539.jpg''\<rparr>"

definition tileB :: tile where
  "tileB = \<lparr>tileBrand = ''John Deere'', tileName = ''2019 8R 250 - 400001'',
            tileUrl = ''/en-us/tractors/8r-250/400001.html'', tilePrice = ''$210,000.00'',
            tileStatus = ''Used'', tileCategory = ''tractors'', tileImage = ''/img/400001.jpg''\<rparr>"

definition shortSite :: site where
  "shortSite =
     \<lparr>listingPage = (\<lambda>n. if n = 0 then Inr [tileA, tileB] else Inl Timeout),
      debugWrite = None,
      detailPage = (\<lambda>u. if u = ''https://www.akrs.com/en-us/tractors/5095m/431539.html''
                          then Inr [(''Location:'', '' Gretna ''), (''Hours'', ''120'')]
                          else if u = ''https://www.akrs.com/en-us/mowers/z930m/500002.html''
                          then Inr [(''Stock Number'', ''A-17'')]
                          else Inl Timeout),
      detailLatency = (\<lambda>p i. 5 - i)\<rparr>"

definition failingSite :: site where
  "failingSite =
     \<lparr>listingPage = (\<lambda>n. if n = 0 then Inr (replicate 12 tileA) else Inl (HttpStatus 503)),
      debugWrite = None,
      detailPage = (\<lambda>u. Inr [(''Location:'', '' Gretna '')]),
      detailLatency = (\<lambda>p i. 12 - i)\<rparr>"

section \<open>Properties\<close>

subsection \<open>Record Normalizer\<close>

lemma all_le_list_all: "(\<forall>k\<le>n. P k) = list_all P [0..<Suc n]"
  by (auto simp: list_all_iff less_Suc_eq_le)

lemma all_less_list_all: "(\<forall>k<n. P k) = list_all P [0..<n]"
  by (auto simp: list_all_iff)

lemma searchFrom_None:
  "(\<forall>k\<le>length s. matchPieces ps (drop k s) = None) \<Longrightarrow> searchFrom ps s = None"
proof (induction s)
  case Nil
  then show ?case by simp
next
  case (Cons c cs)
  from Cons.prems have h0: "matchPieces ps (c # cs) = None" by (metis drop0 le0)
  have "\<forall>k\<le>length cs. matchPieces ps (drop k cs) = None"
  proof (intro allI impI)
    fix k assume "k \<le> length cs"
    then have "Suc k \<le> length (c # cs)" by simp
    with Cons.prems have "matchPieces ps (drop (Suc k) (c # cs)) = None" by blast
    then show "matchPieces ps (drop k cs) = None" by simp
  qed
  with Cons.IH h0 show ?case by simp
qed

lemma searchFrom_skip:
  "(\<forall>j<length pre. matchPieces ps (drop j (pre @ s)) = None) \<Longrightarrow>
   searchFrom ps (pre @ s) = searchFrom ps s"
proof (induction pre)
  case Nil
  then show ?case by simp
next
  case (Cons c pre)
  from Cons.prems have h0: "matchPieces ps (c # pre @ s) = None"
    by (metis append_Cons drop0 length_greater_0_conv list.distinct(1))
  have "\<forall>j<length pre. matchPieces ps (drop j (pre @ s)) = None"
  proof (intro allI impI)
    fix j assume "j < length pre"
    then have "Suc j < length (c # pre)" by simp
    with Cons.prems have "matchPieces ps (drop (Suc j) ((c # pre) @ s)) = None" by blast
    then show "matchPieces ps (drop j (pre @ s)) = None" by simp
  qed
  with Cons.IH h0 show ?case by simp
qed

lemma searchFrom_here: "matchPieces ps s = Some caps \<Longrightarrow> searchFrom ps s = Some caps"
  by (cases s) simp_all

lemma nameRegex_empty: "matchPieces nameRegex [] = None"
  by (simp add: nameRegex_def candidates_def)

text \<open>
  Claim C8, as amended. The name \<open>2024 5095M - 431539\<close> parses to year 2024, model
  5095M and product id 431539. A name in which the pattern matches at no position
  parses to an empty year and product id, with the whole name as the model. The pattern
  is not anchored: when no match starts in the text \<open>before\<close> and the pattern matches
  at the start of \<open>rest\<close>, the name \<open>before @ rest\<close> parses to the captures of that
  match, whatever stands before it and after it.
\<close>

theorem parseProductName_unanchored:
  "parseProductName ''2024 5095M - 431539'' =
     \<lparr>year = ''2024'', model = ''5095M'', productId = ''431539''\<rparr> \<and>
   ((\<forall>k\<le>length nameText. matchPieces nameRegex (drop k nameText) = None) \<longrightarrow>
      parseProductName nameText = \<lparr>year = [], model = nameText, productId = []\<rparr>) \<and>
   ((\<forall>j<length before. matchPieces nameRegex (drop j (before @ rest)) = None) \<and>
    matchPieces nameRegex rest = Some caps \<longrightarrow>
      parseProductName (before @ rest) =
        \<lparr>year = caps ! 0, model = caps ! 1, productId = caps ! 2\<rparr>)"
proof (intro conjI impI)
  show "parseProductName ''2024 5095M - 431539'' =
     \<lparr>year = ''2024'', model = ''5095M'', productId = ''431539''\<rparr>"
    by code_simp
next
  assume "\<forall>k\<le>length nameText. matchPieces nameRegex (drop k nameText) = None"
  then have "searchFrom nameRegex nameText = None" by (rule searchFrom_None)
  then show "parseProductName nameText = \<lparr>year = [], model = nameText, productId = []\<rparr>"
    by (simp add: parseProductName_def)
next
  assume h: "(\<forall>j<length before. matchPieces nameRegex (drop j (before @ rest)) = None) \<and>
    matchPieces nameRegex rest = Some caps"
  then have "rest \<noteq> []" using nameRegex_empty by auto
  moreover from h have "searchFrom nameRegex (before @ rest) = Some caps"
    by (simp add: searchFrom_skip searchFrom_here)
  ultimately show "parseProductName (before @ rest) =
        \<lparr>year = caps ! 0, model = caps ! 1, productId = caps ! 2\<rparr>"
    by (simp add: parseProductName_def)
qed

theorem parseProductName_unanchored_witness:
  "parseProductName ''2024 5095M'' = \<lparr>year = [], model = ''2024 5095M'', productId = []\<rparr> \<and>
   parseProductName (''JD '' @ ''2024 5095M - 431539 (demo)'') =
     \<lparr>year = ''2024'', model = ''5095M'', productId = ''431539''\<rparr>"
proof -
  have a: "\<forall>k\<le>length ''2024 5095M''. matchPieces nameRegex (drop k ''2024 5095M'') = None"
    unfolding all_le_list_all by code_simp
  have b: "\<forall>j<length ''JD ''. matchPieces nameRegex (drop j (''JD '' @ ''2024 5095M - 431539 (demo)'')) = None"
    unfolding all_less_list_all by code_simp
  have c: "matchPieces nameRegex ''2024 5095M - 431539 (demo)'' = Some [''2024'', ''5095M'', ''431539'']"
    by code_simp
  from parseProductName_unanchored [of "''2024 5095M''" "''JD ''" "''2024 5095M - 431539 (demo)''" "[''2024'', ''5095M'', ''431539'']"] a b c
  show ?thesis by simp
qed

text \<open>
  Claim C8 as stated fails: matched at the start of this name the pattern fails, so an
  anchored match would give the whole name as the model; the parse finds the pattern
  inside the name instead.
\<close>

theorem parseProductName_anchored_counterexample:
  "matchPieces nameRegex ''JD 2024 5095M - 431539 (demo)'' = None \<and>
   parseProductName ''JD 2024 5095M - 431539 (demo)'' =
     \<lparr>year = ''2024'', model = ''5095M'', productId = ''431539''\<rparr>"
  by code_simp

subsection \<open>Batch Scheduler and Detail Fetcher\<close>

lemma settleAll_slots:
  assumes "neverFails f batch"
    and "\<forall>j\<in>set js. j < length batch"
    and "length slots = length batch"
    and "\<forall>i<length batch. i \<notin> fin \<longrightarrow> slots ! i = None"
    and "\<forall>i<length batch. i \<in> fin \<longrightarrow> (\<exists>v. slots ! i = Some v \<and> resultOf f (batch ! i) v)"
  shows "\<exists>slots' s'. settleAll f batch js slots s = (Inr slots', s') \<and>
           length slots' = length batch \<and>
           (\<forall>i<length batch. i \<in> fin \<union> set js \<longrightarrow>
              (\<exists>v. slots' ! i = Some v \<and> resultOf f (batch ! i) v))"
  using assms
proof (induction js arbitrary: slots s fin)
  case Nil
  then show ?case by simp
next
  case (Cons j js)
  from Cons.prems(2) have j: "j < length batch" by simp
  then have "batch ! j \<in> set batch" by simp
  with Cons.prems(1) obtain v where v: "fst (f (batch ! j) s) = Inr v"
    unfolding neverFails_def by blast
  obtain s1 where s1: "f (batch ! j) s = (Inr v, s1)"
    using v by (cases "f (batch ! j) s") simp
  have rv: "resultOf f (batch ! j) v" unfolding resultOf_def using v by blast
  let ?slots = "slots[j := Some v]"
  have a: "length ?slots = length batch" using Cons.prems(3) by simp
  have b: "\<forall>i<length batch. i \<notin> insert j fin \<longrightarrow> ?slots ! i = None"
    using Cons.prems(4) by (simp add: nth_list_update)
  have c: "\<forall>i<length batch. i \<in> insert j fin \<longrightarrow>
             (\<exists>v. ?slots ! i = Some v \<and> resultOf f (batch ! i) v)"
  proof (intro allI impI)
    fix i assume i: "i < length batch" "i \<in> insert j fin"
    show "\<exists>v. ?slots ! i = Some v \<and> resultOf f (batch ! i) v"
    proof (cases "i = j")
      case True
      with rv j Cons.prems(3) show ?thesis by simp
    next
      case False
      with i Cons.prems(5) show ?thesis by simp
    qed
  qed
  from Cons.prems(2) have d: "\<forall>j\<in>set js. j < length batch" by simp
  from Cons.IH [OF Cons.prems(1) d a b c, of s1]
  obtain slots' s' where r: "settleAll f batch js ?slots s1 = (Inr slots', s')"
      "length slots' = length batch"
      "\<forall>i<length batch. i \<in> insert j fin \<union> set js \<longrightarrow>
         (\<exists>v. slots' ! i = Some v \<and> resultOf f (batch ! i) v)"
    by blast
  have "settleAll f batch (j # js) slots s = (Inr slots', s')"
    using s1 r(1) by simp
  with r(2,3) show ?case by auto
qed

lemma set_completionOrder: "set (completionOrder latency n) = {0..<n}"
  by (simp add: completionOrder_def)

lemma promiseAll_results:
  assumes "neverFails f batch"
  shows "\<exists>rs s'. promiseAll f batch latency s = (Inr rs, s') \<and> list_all2 (resultOf f) batch rs"
proof -
  let ?n = "length batch"
  have "\<exists>slots' s'. settleAll f batch (completionOrder latency ?n) (replicate ?n None) s = (Inr slots', s') \<and>
           length slots' = ?n \<and>
           (\<forall>i<?n. i \<in> {} \<union> set (completionOrder latency ?n) \<longrightarrow>
              (\<exists>v. slots' ! i = Some v \<and> resultOf f (batch ! i) v))"
    by (rule settleAll_slots [OF assms]) (simp_all add: set_completionOrder)
  then obtain slots' s' where r:
      "settleAll f batch (completionOrder latency ?n) (replicate ?n None) s = (Inr slots', s')"
      "length slots' = ?n"
      "\<forall>i<?n. \<exists>v. slots' ! i = Some v \<and> resultOf f (batch ! i) v"
    by (auto simp: set_completionOrder)
  have "promiseAll f batch latency s = (Inr (map the slots'), s')"
    using r(1) by (simp add: promiseAll_def)
  moreover have "list_all2 (resultOf f) batch (map the slots')"
    unfolding list_all2_conv_all_nth using r(2,3) by auto
  ultimately show ?thesis by blast
qed

lemma neverFails_sub: "neverFails f xs \<Longrightarrow> set ys \<subseteq> set xs \<Longrightarrow> neverFails f ys"
  unfolding neverFails_def by blast

lemma processBatch_loop_results:
  assumes "1 \<le> batchSize" and "neverFails f items"
  shows "\<exists>rs s'. processBatch_loop items batchSize f latency i results s = Some (Inr (results @ rs), s') \<and>
           list_all2 (resultOf f) (drop i items) rs"
proof (induction "length items - i" arbitrary: i results s rule: less_induct)
  case less
  show ?case
  proof (cases "i < length items")
    case False
    then show ?thesis
      by (subst processBatch_loop.simps) simp
  next
    case True
    let ?batch = "take batchSize (drop i items)"
    have "set ?batch \<subseteq> set items"
      by (meson set_take_subset set_drop_subset subset_trans)
    with assms(2) have nf: "neverFails f ?batch" by (rule neverFails_sub)
    from promiseAll_results [OF nf, of "\<lambda>j. latency (i + j)" s]
    obtain brs s1 where b: "promiseAll f ?batch (\<lambda>j. latency (i + j)) s = (Inr brs, s1)"
        "list_all2 (resultOf f) ?batch brs" by blast
    have "length items - (i + batchSize) < length items - i"
      using True assms(1) by arith
    from less [OF this, of "results @ brs" s1]
    obtain rs s' where r:
        "processBatch_loop items batchSize f latency (i + batchSize) (results @ brs) s1 =
           Some (Inr ((results @ brs) @ rs), s')"
        "list_all2 (resultOf f) (drop (i + batchSize) items) rs" by blast
    have step: "processBatch_loop items batchSize f latency i results s =
        Some (Inr (results @ (brs @ rs)), s')"
      using True b(1) r(1) by (subst processBatch_loop.simps) simp
    have "drop i items = ?batch @ drop (i + batchSize) items"
      by (metis append_take_drop_id drop_drop add.commute)
    then have "list_all2 (resultOf f) (drop i items) (brs @ rs)"
      using b(2) r(2) by (metis list_all2_appendI)
    with step show ?thesis by blast
  qed
qed



lemma scrapeProductDetails_total:
  "scrapeProductDetails httpGet url = Inr (detailsOrDefault httpGet url)"
  by (simp add: scrapeProductDetails_def scrapeProductDetails_try_def detailsOrDefault_def
      split: sum.splits)

lemma readRows_miss:
  "list_all (\<lambda>(l, v). \<not> relevantLabel l) rows \<Longrightarrow> readRows rows d = d"
  by (induction rows arbitrary: d) (auto simp: relevantLabel_def Let_def)

lemma enrichProduct_total: "enrichProduct env p = Inr (enriched env p)"
  by (simp add: enrichProduct_def enriched_def scrapeProductDetails_total)

lemma enrich_push: "enrich env p products = (Inr (enriched env p), products @ [enriched env p])"
  by (simp add: enrich_def enrichProduct_total)

lemma resultOf_enrich: "resultOf (enrich env) p v = (v = enriched env p)"
  by (auto simp: resultOf_def enrich_push)

lemma neverFails_enrich: "neverFails (enrich env) items"
  by (simp add: neverFails_def enrich_push)

lemma list_all2_enriched:
  "list_all2 (resultOf (enrich env)) xs rs \<Longrightarrow> rs = map (enriched env) xs"
  by (induction xs rs rule: list_all2_induct) (simp_all add: resultOf_enrich)

text \<open>
  Claim C6. \<open>scrapeProductDetails\<close> never fails. When the request fails, or when no row
  of the page has a label it reads, it returns the empty defaults. With the callback
  of \<open>scrapeEquipment\<close>, \<open>processBatch\<close> returns one result for every item: the item
  with its own details, which are the empty defaults when the item's request failed.
\<close>

theorem scrapeProductDetails_fails_soft:
  "(\<exists>d. scrapeProductDetails httpGet url = Inr d) \<and>
   (httpGet (fullUrl url) = Inl e \<longrightarrow>
      scrapeProductDetails httpGet url = Inr \<lparr>location = [], hours = []\<rparr>) \<and>
   (httpGet (fullUrl url) = Inr rows \<and> list_all (\<lambda>(l, v). \<not> relevantLabel l) rows \<longrightarrow>
      scrapeProductDetails httpGet url = Inr \<lparr>location = [], hours = []\<rparr>) \<and>
   (1 \<le> batchSize \<longrightarrow>
      (\<exists>rs products'.
         processBatch items batchSize (enrich env) latency products = Some (Inr rs, products') \<and>
         length rs = length items \<and>
         (\<forall>i<length items.
            enrichProduct env (items ! i) = Inr (rs ! i) \<and>
            rs ! i = (items ! i)\<lparr>detail := detail (rs ! i)\<rparr> \<and>
            (detailPage env (fullUrl (productUrl (items ! i))) = Inl e \<longrightarrow>
               detail (rs ! i) = \<lparr>location = [], hours = []\<rparr>))))"
proof (intro conjI impI)
  show "\<exists>d. scrapeProductDetails httpGet url = Inr d"
    by (simp add: scrapeProductDetails_total)
next
  assume "httpGet (fullUrl url) = Inl e"
  then show "scrapeProductDetails httpGet url = Inr \<lparr>location = [], hours = []\<rparr>"
    by (simp add: scrapeProductDetails_total detailsOrDefault_def)
next
  assume "httpGet (fullUrl url) = Inr rows \<and> list_all (\<lambda>(l, v). \<not> relevantLabel l) rows"
  then show "scrapeProductDetails httpGet url = Inr \<lparr>location = [], hours = []\<rparr>"
    by (simp add: scrapeProductDetails_total detailsOrDefault_def readRows_miss)
next
  assume bs: "1 \<le> batchSize"
  have "\<exists>rs s'. processBatch_loop items batchSize (enrich env) latency 0 [] products =
            Some (Inr ([] @ rs), s') \<and> list_all2 (resultOf (enrich env)) (drop 0 items) rs"
    by (rule processBatch_loop_results [OF bs neverFails_enrich])
  then obtain rs products' where r:
      "processBatch items batchSize (enrich env) latency products = Some (Inr rs, products')"
      "list_all2 (resultOf (enrich env)) items rs"
    by (auto simp: processBatch_def)
  from r(2) have rs: "rs = map (enriched env) items" by (rule list_all2_enriched)
  have "\<forall>i<length items.
            enrichProduct env (items ! i) = Inr (rs ! i) \<and>
            rs ! i = (items ! i)\<lparr>detail := detail (rs ! i)\<rparr> \<and>
            (detailPage env (fullUrl (productUrl (items ! i))) = Inl e \<longrightarrow>
               detail (rs ! i) = \<lparr>location = [], hours = []\<rparr>)"
    by (simp add: rs enrichProduct_total enriched_def detailsOrDefault_def)
  with r(1) rs show "\<exists>rs products'.
         processBatch items batchSize (enrich env) latency products = Some (Inr rs, products') \<and>
         length rs = length items \<and>
         (\<forall>i<length items.
            enrichProduct env (items ! i) = Inr (rs ! i) \<and>
            rs ! i = (items ! i)\<lparr>detail := detail (rs ! i)\<rparr> \<and>
            (detailPage env (fullUrl (productUrl (items ! i))) = Inl e \<longrightarrow>
               detail (rs ! i) = \<lparr>location = [], hours = []\<rparr>))"
    by auto
qed

theorem scrapeProductDetails_fails_soft_witness:
  "scrapeProductDetails (detailPage shortSite) (tileUrl tileB) = Inr \<lparr>location = [], hours = []\<rparr> \<and>
   scrapeProductDetails (detailPage shortSite) ''/en-us/mowers/z930m/500002.html'' =
     Inr \<lparr>location = [], hours = []\<rparr> \<and>
   scrapeProductDetails (detailPage shortSite) (tileUrl tileA) = Inr \<lparr>location = ''Gretna'', hours = ''120''\<rparr> \<and>
   (\<exists>rs products'.
      processBatch (map mkProduct [tileB, tileA]) 10 (enrich shortSite) exampleLatency [] =
        Some (Inr rs, products') \<and>
      length rs = 2 \<and>
      detail (rs ! 0) = \<lparr>location = [], hours = []\<rparr> \<and>
      enrichProduct shortSite (mkProduct tileA) = Inr (rs ! 1))"
proof -
  have f: "detailPage shortSite (fullUrl (tileUrl tileB)) = Inl Timeout" by code_simp
  have g: "scrapeProductDetails (detailPage shortSite) (tileUrl tileA) =
      Inr \<lparr>location = ''Gretna'', hours = ''120''\<rparr>" by code_simp
  have u: "productUrl (mkProduct tileB) = tileUrl tileB" by (simp add: mkProduct_def)
  have bs: "(1::nat) \<le> 10" by simp
  note t = scrapeProductDetails_fails_soft [of "detailPage shortSite" "tileUrl tileB" Timeout "[]" 10
      "map mkProduct [tileB, tileA]" shortSite exampleLatency "[]"]
  from t f have a: "scrapeProductDetails (detailPage shortSite) (tileUrl tileB) =
      Inr \<lparr>location = [], hours = []\<rparr>" by blast
  have h: "detailPage shortSite (fullUrl ''/en-us/mowers/z930m/500002.html'') =
      Inr [(''Stock Number'', ''A-17'')]" by code_simp
  have i: "list_all (\<lambda>(l, v). \<not> relevantLabel l) [(''Stock Number'', ''A-17'')]" by code_simp
  from scrapeProductDetails_fails_soft [of "detailPage shortSite" "''/en-us/mowers/z930m/500002.html''"
      Timeout "[(''Stock Number'', ''A-17'')]" 10 "[]" shortSite exampleLatency "[]"] h i
  have m: "scrapeProductDetails (detailPage shortSite) ''/en-us/mowers/z930m/500002.html'' =
      Inr \<lparr>location = [], hours = []\<rparr>" by blast
  from t bs obtain rs products' where r:
      "processBatch (map mkProduct [tileB, tileA]) 10 (enrich shortSite) exampleLatency [] =
        Some (Inr rs, products')"
      "length rs = length (map mkProduct [tileB, tileA])"
      "\<forall>i<length (map mkProduct [tileB, tileA]).
            enrichProduct shortSite (map mkProduct [tileB, tileA] ! i) = Inr (rs ! i) \<and>
            rs ! i = (map mkProduct [tileB, tileA] ! i)\<lparr>detail := detail (rs ! i)\<rparr> \<and>
            (detailPage shortSite (fullUrl (productUrl (map mkProduct [tileB, tileA] ! i))) = Inl Timeout \<longrightarrow>
               detail (rs ! i) = \<lparr>location = [], hours = []\<rparr>)"
    by blast
  from r(3) have "detailPage shortSite (fullUrl (productUrl (mkProduct tileB))) = Inl Timeout \<longrightarrow>
               detail (rs ! 0) = \<lparr>location = [], hours = []\<rparr>" by force
  with f u have d0: "detail (rs ! 0) = \<lparr>location = [], hours = []\<rparr>" by simp
  from r(3) have d1: "enrichProduct shortSite (mkProduct tileA) = Inr (rs ! 1)" by force
  from a m g r(1,2) d0 d1 show ?thesis by auto
qed

lemma settleAll_enrich_state:
  "snd (settleAll (enrich env) batch js slots s) = s @ map (\<lambda>j. enriched env (batch ! j)) js"
  by (induction js arbitrary: slots s) (simp_all add: enrich_push)

lemma mset_completionOrder: "mset (completionOrder latency n) = mset [0..<n]"
  by (simp add: completionOrder_def)

lemma promiseAll_enrich:
  "\<exists>ys. promiseAll (enrich env) batch latency s = (Inr (map (enriched env) batch), s @ ys) \<and>
        mset ys = mset (map (enriched env) batch)"
proof -
  have "\<exists>rs s'. promiseAll (enrich env) batch latency s = (Inr rs, s') \<and>
           list_all2 (resultOf (enrich env)) batch rs"
    by (rule promiseAll_results [OF neverFails_enrich])
  then obtain rs s' where r: "promiseAll (enrich env) batch latency s = (Inr rs, s')"
      "list_all2 (resultOf (enrich env)) batch rs" by blast
  from r(2) have rs: "rs = map (enriched env) batch" by (rule list_all2_enriched)
  let ?ord = "completionOrder latency (length batch)"
  let ?ys = "map (\<lambda>j. enriched env (batch ! j)) ?ord"
  have "snd (settleAll (enrich env) batch ?ord (replicate (length batch) None) s) = s @ ?ys"
    by (rule settleAll_enrich_state)
  moreover from r(1) have "snd (settleAll (enrich env) batch ?ord (replicate (length batch) None) s) = s'"
    by (auto simp: promiseAll_def split: prod.splits sum.splits)
  ultimately have s': "s' = s @ ?ys" by simp
  have e: "map (\<lambda>j. enriched env (batch ! j)) [0..<length batch] = map (enriched env) batch"
    by (rule nth_equalityI) simp_all
  have "mset ?ys = image_mset (\<lambda>j. enriched env (batch ! j)) (mset ?ord)" by simp
  also have "\<dots> = image_mset (\<lambda>j. enriched env (batch ! j)) (mset [0..<length batch])"
    by (simp only: mset_completionOrder)
  also have "\<dots> = mset (map (\<lambda>j. enriched env (batch ! j)) [0..<length batch])" by simp
  finally have "mset ?ys = mset (map (enriched env) batch)" by (simp only: e)
  with r(1) rs s' show ?thesis by blast
qed

lemma processBatch_loop_enrich:
  assumes "1 \<le> batchSize"
  shows "\<exists>ys. processBatch_loop items batchSize (enrich env) latency i results s =
             Some (Inr (results @ map (enriched env) (drop i items)), s @ ys) \<and>
           mset ys = mset (map (enriched env) (drop i items))"
proof (induction "length items - i" arbitrary: i results s rule: less_induct)
  case less
  show ?case
  proof (cases "i < length items")
    case False
    then show ?thesis
      by (subst processBatch_loop.simps) simp
  next
    case True
    let ?batch = "take batchSize (drop i items)"
    have "\<exists>ys. promiseAll (enrich env) ?batch (\<lambda>j. latency (i + j)) s =
             (Inr (map (enriched env) ?batch), s @ ys) \<and> mset ys = mset (map (enriched env) ?batch)"
      by (rule promiseAll_enrich)
    then obtain ys1 where b:
        "promiseAll (enrich env) ?batch (\<lambda>j. latency (i + j)) s = (Inr (map (enriched env) ?batch), s @ ys1)"
        "mset ys1 = mset (map (enriched env) ?batch)" by blast
    have "length items - (i + batchSize) < length items - i"
      using True assms by arith
    then have "\<exists>ys. processBatch_loop items batchSize (enrich env) latency (i + batchSize)
           (results @ map (enriched env) ?batch) (s @ ys1) =
           Some (Inr ((results @ map (enriched env) ?batch) @
                      map (enriched env) (drop (i + batchSize) items)), (s @ ys1) @ ys) \<and>
           mset ys = mset (map (enriched env) (drop (i + batchSize) items))"
      by (rule less)
    then obtain ys2 where r:
        "processBatch_loop items batchSize (enrich env) latency (i + batchSize)
           (results @ map (enriched env) ?batch) (s @ ys1) =
           Some (Inr ((results @ map (enriched env) ?batch) @
                      map (enriched env) (drop (i + batchSize) items)), (s @ ys1) @ ys2)"
        "mset ys2 = mset (map (enriched env) (drop (i + batchSize) items))" by blast
    have split: "drop i items = ?batch @ drop (i + batchSize) items"
      by (metis append_take_drop_id drop_drop add.commute)
    have m: "map (enriched env) (drop i items) =
        map (enriched env) ?batch @ map (enriched env) (drop (i + batchSize) items)"
      by (subst split) simp
    have step: "processBatch_loop items batchSize (enrich env) latency i results s =
        Some (Inr (results @ map (enriched env) (drop i items)), s @ (ys1 @ ys2))"
      using True b(1) r(1) by (subst processBatch_loop.simps) (simp add: m)
    have "mset (ys1 @ ys2) = mset (map (enriched env) (drop i items))"
      using b(2) r(2) by (simp add: m)
    with step show ?thesis by blast
  qed
qed

lemma processBatch_enrich:
  "\<exists>ys. processBatch items BATCH_SIZE (enrich env) latency s =
           Some (Inr (map (enriched env) items), s @ ys) \<and>
         mset ys = mset (map (enriched env) items)"
proof -
  have "1 \<le> BATCH_SIZE" by (simp add: BATCH_SIZE_def)
  then have "\<exists>ys. processBatch_loop items BATCH_SIZE (enrich env) latency 0 [] s =
             Some (Inr ([] @ map (enriched env) (drop 0 items)), s @ ys) \<and>
           mset ys = mset (map (enriched env) (drop 0 items))"
    by (rule processBatch_loop_enrich)
  then show ?thesis by (simp add: processBatch_def)
qed

subsection \<open>Pagination Controller\<close>

lemma scrapeLoop_stop:
  assumes "maxPages \<le> n"
  shows "crawlShape env maxPages n ps f (Inr ()) ps n []"
  using assms unfolding crawlShape_def samePages_def
  by (subst scrapeLoop.simps) auto

lemma scrapeLoop_fail:
  assumes "n < maxPages" "fetchTiles env n = Inl e"
  shows "crawlShape env maxPages n ps f (Inl e) ps (Suc n) [[]]"
  using assms unfolding crawlShape_def samePages_def
  by (subst scrapeLoop.simps) (auto simp: fullPage_def pageRecords_def)

lemma scrapeLoop_empty:
  assumes "n < maxPages" "fetchTiles env n = Inr []"
  shows "crawlShape env maxPages n ps f (Inr ()) ps (Suc n) [[]]"
  using assms unfolding crawlShape_def samePages_def
  by (subst scrapeLoop.simps) (auto simp: fullPage_def pageRecords_def productsPerPage_def)

lemma scrapeLoop_short:
  assumes "n < maxPages" "fetchTiles env n = Inr tiles" "tiles \<noteq> []"
    "\<not> productsPerPage \<le> length tiles"
    "processBatch (map mkProduct tiles) BATCH_SIZE (enrich env) (detailLatency env n) ps =
       Some (Inr rs, ps @ ys)"
    "mset ys = mset (map (enriched env) (map mkProduct tiles))"
  shows "crawlShape env maxPages n ps f (Inr ()) (ps @ ys) (Suc n) [ys]"
  using assms unfolding crawlShape_def samePages_def
  by (subst scrapeLoop.simps) (auto simp: fullPage_def pageRecords_def)

lemma scrapeLoop_full:
  assumes "n < maxPages" "fetchTiles env n = Inr tiles" "tiles \<noteq> []"
    "productsPerPage \<le> length tiles"
    "processBatch (map mkProduct tiles) BATCH_SIZE (enrich env) (detailLatency env n) ps =
       Some (Inr rs, ps @ ys)"
    "mset ys = mset (map (enriched env) (map mkProduct tiles))"
    "crawlShape env maxPages (Suc n) (ps @ ys) (f @ [n]) out ps' m blocks"
  shows "crawlShape env maxPages n ps f out ps' m (ys # blocks)"
proof -
  note c = assms(7) [unfolded crawlShape_def]
  from c have m: "Suc n \<le> m" by simp
  then have upt: "[n..<m] = n # [Suc n..<m]" by (simp add: upt_conv_Cons)
  have full: "fullPage env n" using assms(2,4) by (simp add: fullPage_def)
  have run: "scrapeLoop env maxPages n ps f = Some (out, ps', f @ [n..<m])"
    using assms(1-5) c by (subst scrapeLoop.simps) (simp add: upt)
  have a: "\<forall>k. n \<le> k \<and> Suc k < m \<longrightarrow> fullPage env k"
  proof (intro allI impI)
    fix k assume k: "n \<le> k \<and> Suc k < m"
    show "fullPage env k"
    proof (cases "k = n")
      case True with full show ?thesis by simp
    next
      case False
      with k have "Suc n \<le> k \<and> Suc k < m" by simp
      with c show ?thesis by blast
    qed
  qed
  have b: "n < m \<and> m < maxPages \<longrightarrow> \<not> fullPage env (m - 1)"
    using c by auto
  have d: "\<forall>e. (out = Inl e) = (n < m \<and> fetchTiles env (m - 1) = Inl e)"
  proof
    fix e
    show "(out = Inl e) = (n < m \<and> fetchTiles env (m - 1) = Inl e)"
    proof (cases "Suc n < m")
      case True with c show ?thesis by auto
    next
      case False
      with m have "m = Suc n" by simp
      with c assms(2) show ?thesis by auto
    qed
  qed
  have e: "samePages env (ys # blocks) [n..<m]"
    using c assms(2,6) by (simp add: samePages_def upt pageRecords_def)
  from c have "ps' = ps @ concat (ys # blocks)" by simp
  with run m a b d e c assms(1) show ?thesis
    unfolding crawlShape_def by auto
qed

lemma scrapeLoop_shape:
  "\<exists>out ps' m blocks. crawlShape env maxPages n ps f out ps' m blocks"
proof (induction "maxPages - n" arbitrary: n ps f rule: less_induct)
  case less
  show ?case
  proof (cases "n < maxPages")
    case False
    then have "crawlShape env maxPages n ps f (Inr ()) ps n []"
      by (intro scrapeLoop_stop) simp
    then show ?thesis by blast
  next
    case True
    show ?thesis
    proof (cases "fetchTiles env n")
      case (Inl e)
      with True have "crawlShape env maxPages n ps f (Inl e) ps (Suc n) [[]]"
        by (rule scrapeLoop_fail)
      then show ?thesis by blast
    next
      case (Inr tiles)
      show ?thesis
      proof (cases "tiles = []")
        case True
        with \<open>n < maxPages\<close> Inr have "crawlShape env maxPages n ps f (Inr ()) ps (Suc n) [[]]"
          by (intro scrapeLoop_empty) simp_all
        then show ?thesis by blast
      next
        case False
        have "\<exists>ys. processBatch (map mkProduct tiles) BATCH_SIZE (enrich env) (detailLatency env n) ps =
                 Some (Inr (map (enriched env) (map mkProduct tiles)), ps @ ys) \<and>
               mset ys = mset (map (enriched env) (map mkProduct tiles))"
          by (rule processBatch_enrich)
        then obtain ys where ys:
          "processBatch (map mkProduct tiles) BATCH_SIZE (enrich env) (detailLatency env n) ps =
                 Some (Inr (map (enriched env) (map mkProduct tiles)), ps @ ys)"
          "mset ys = mset (map (enriched env) (map mkProduct tiles))" by blast
        show ?thesis
        proof (cases "productsPerPage \<le> length tiles")
          case False
          from \<open>n < maxPages\<close> Inr \<open>tiles \<noteq> []\<close> False ys
          have "crawlShape env maxPages n ps f (Inr ()) (ps @ ys) (Suc n) [ys]"
            by (rule scrapeLoop_short)
          then show ?thesis by blast
        next
          case True
          have "maxPages - Suc n < maxPages - n" using \<open>n < maxPages\<close> by arith
          then have "\<exists>out ps' m blocks. crawlShape env maxPages (Suc n) (ps @ ys) (f @ [n]) out ps' m blocks"
            by (rule less)
          then obtain out ps' m blocks where
            "crawlShape env maxPages (Suc n) (ps @ ys) (f @ [n]) out ps' m blocks" by blast
          with \<open>n < maxPages\<close> Inr \<open>tiles \<noteq> []\<close> True ys
          have "crawlShape env maxPages n ps f out ps' m (ys # blocks)"
            by (rule scrapeLoop_full)
          then show ?thesis by blast
        qed
      qed
    qed
  qed
qed

lemma thLoop_stop:
  assumes "\<not> n \<le> maxPages_th"
  shows "thShape env n ls f ls n"
  using assms unfolding thShape_def by (subst thLoop.simps) auto

lemma thLoop_last:
  assumes "n \<le> maxPages_th" "\<not> continues env n"
  shows "thShape env n ls f (ls @ concat (map (pageListings env) (filter (scraped env) [n]))) (Suc n)"
  using assms unfolding thShape_def
  by (subst thLoop.simps)
     (auto simp: continues_def scraped_def pageListings_def Let_def split: option.splits sum.splits)

lemma thLoop_next:
  assumes "n \<le> maxPages_th" "continues env n"
    "thShape env (Suc n) (ls @ pageListings env n) (f @ [n]) ls' m"
  shows "thShape env n ls f ls' m"
proof -
  note c = assms(3) [unfolded thShape_def]
  from c have m: "Suc n \<le> m" by simp
  then have upt: "[n..<m] = n # [Suc n..<m]" by (simp add: upt_conv_Cons)
  from assms(2) obtain cards where cont: "navigate env n = None" "20 \<le> cardCount env n"
      "scrapedData env n = Inr cards" "hasNextPage env n = Inr True"
    by (auto simp: continues_def)
  have sc: "scraped env n" using cont by (simp add: scraped_def)
  have run: "thLoop env n ls f = (ls', f @ [n..<m])"
    using assms(1) cont c
    by (subst thLoop.simps) (simp add: upt pageListings_def Let_def)
  have a: "\<forall>k. n \<le> k \<and> Suc k < m \<longrightarrow> continues env k"
  proof (intro allI impI)
    fix k assume k: "n \<le> k \<and> Suc k < m"
    show "continues env k"
    proof (cases "k = n")
      case True with assms(2) show ?thesis by simp
    next
      case False
      with k have "Suc n \<le> k \<and> Suc k < m" by simp
      with c show ?thesis by blast
    qed
  qed
  have "ls' = ls @ concat (map (pageListings env) (filter (scraped env) [n..<m]))"
    using c sc by (simp add: upt)
  with run m a show ?thesis unfolding thShape_def by simp
qed

lemma thLoop_shape: "\<exists>ls' m. thShape env n ls f ls' m"
proof (induction "Suc maxPages_th - n" arbitrary: n ls f rule: less_induct)
  case less
  show ?case
  proof (cases "n \<le> maxPages_th")
    case False
    then have "thShape env n ls f ls n" by (rule thLoop_stop)
    then show ?thesis by blast
  next
    case True
    show ?thesis
    proof (cases "continues env n")
      case False
      with True have
        "thShape env n ls f (ls @ concat (map (pageListings env) (filter (scraped env) [n]))) (Suc n)"
        by (rule thLoop_last)
      then show ?thesis by blast
    next
      case c: True
      have "Suc maxPages_th - Suc n < Suc maxPages_th - n" using True by arith
      then have "\<exists>ls' m. thShape env (Suc n) (ls @ pageListings env n) (f @ [n]) ls' m"
        by (rule less)
      then obtain ls' m where "thShape env (Suc n) (ls @ pageListings env n) (f @ [n]) ls' m"
        by blast
      with True c have "thShape env n ls f ls' m" by (rule thLoop_next)
      then show ?thesis by blast
    qed
  qed
qed

lemma scrapeInventoryListings_shape:
  "\<exists>m. snd (scrapeInventoryListings env) = [1..<m] \<and>
       (\<forall>k. 1 \<le> k \<and> Suc k < m \<longrightarrow> continues env k) \<and>
       fst (scrapeInventoryListings env) =
         concat (map (pageListings env) (filter (scraped env) [1..<m]))"
proof (cases "launch env")
  case None
  obtain ls' m where "thShape env 1 [] [] ls' m" using thLoop_shape by blast
  with None show ?thesis
    unfolding thShape_def scrapeInventoryListings_def by auto
next
  case (Some e)
  then have "snd (scrapeInventoryListings env) = [1..<1] \<and>
       (\<forall>k. 1 \<le> k \<and> Suc k < 1 \<longrightarrow> continues env k) \<and>
       fst (scrapeInventoryListings env) =
         concat (map (pageListings env) (filter (scraped env) [1..<1]))"
    by (simp add: scrapeInventoryListings_def)
  then show ?thesis by blast
qed

lemma pageListings_meaningful: "l \<in> set (pageListings env k) \<Longrightarrow> meaningful l"
  by (auto simp: pageListings_def split: sum.splits)

lemma length_pageListings:
  "length (pageListings env k) \<le> (case scrapedData env k of Inl e \<Rightarrow> 0 | Inr cards \<Rightarrow> length cards)"
proof (cases "scrapedData env k")
  case (Inl e)
  then show ?thesis by (simp add: pageListings_def)
next
  case (Inr cards)
  have "length (filter meaningful (map (cleanItem env) cards)) \<le> length (map (cleanItem env) cards)"
    by (rule length_filter_le)
  with Inr show ?thesis by (simp add: pageListings_def)
qed

lemma length_concat_pageListings:
  "length (concat (map (pageListings env) pages)) \<le>
     sum_list (map (\<lambda>k. case scrapedData env k of Inl e \<Rightarrow> 0 | Inr cards \<Rightarrow> length cards) pages)"
proof (induction pages)
  case Nil
  then show ?case by simp
next
  case (Cons k pages)
  with length_pageListings [of env k] show ?case by simp
qed

lemma scrapeEquipment_shape:
  "\<exists>out products m blocks.
     scrapeLoop env maxPages 0 [] [] = Some (out, products, [0..<m]) \<and>
     scrapeEquipment env maxPages = Some (Inr products, [0..<m]) \<and>
     (0 < maxPages \<longrightarrow> 0 < m) \<and>
     (\<forall>k. Suc k < m \<longrightarrow> fullPage env k) \<and>
     (0 < m \<and> m < maxPages \<longrightarrow> \<not> fullPage env (m - 1)) \<and>
     (\<forall>e. (out = Inl e) = (0 < m \<and> fetchTiles env (m - 1) = Inl e)) \<and>
     products = concat blocks \<and> samePages env blocks [0..<m]"
proof -
  obtain out products m blocks where c: "crawlShape env maxPages 0 [] [] out products m blocks"
    using scrapeLoop_shape by blast
  note d = c [unfolded crawlShape_def]
  from d have run: "scrapeLoop env maxPages 0 [] [] = Some (out, products, [0..<m])" by simp
  then have "scrapeEquipment env maxPages = Some (Inr products, [0..<m])"
    by (cases out) (simp_all add: scrapeEquipment_def)
  with run d show ?thesis by auto
qed

lemma samePages_last:
  assumes "samePages env blocks [0..<Suc k]"
  shows "\<exists>front b. blocks = front @ [b] \<and> samePages env front [0..<k] \<and>
           mset b = mset (pageRecords env k)"
proof -
  from assms have "list_all2 (\<lambda>b k. mset b = mset (pageRecords env k)) blocks ([0..<k] @ [k])"
    by (simp add: samePages_def)
  then obtain front bs where f: "blocks = front @ bs"
      "list_all2 (\<lambda>b k. mset b = mset (pageRecords env k)) front [0..<k]"
      "list_all2 (\<lambda>b k. mset b = mset (pageRecords env k)) bs [k]"
    by (auto simp: list_all2_append2)
  from f(3) obtain b where "bs = [b]" "mset b = mset (pageRecords env k)"
    by (auto simp: list_all2_Cons2)
  with f show ?thesis by (auto simp: samePages_def)
qed

lemma last_page:
  assumes "\<forall>k. Suc k < m \<longrightarrow> P k" "k < m" "\<not> P k"
  shows "m = Suc k"
proof -
  from assms(1,3) have "\<not> Suc k < m" by blast
  with assms(2) show ?thesis by simp
qed



lemma fetchTiles_fail: "listingPage env n = Inl e \<Longrightarrow> fetchTiles env n = Inl e"
  by (simp add: fetchTiles_def)

text \<open>
  Claim C5. \<open>scrapeEquipment\<close> always returns a list of products, never an error. When
  the request of page \<open>n\<close> fails, the loop ends with the products it holds, unchanged.
  When the pages before \<open>n\<close> are full and the request of page \<open>n\<close> fails, the pages
  requested are 0 to \<open>n\<close>, and the result is the products the \<open>try\<close> block held at the
  failure: the records of the pages before \<open>n\<close>.
\<close>

theorem scrapeEquipment_request_failure:
  "(\<exists>products fetched. scrapeEquipment env maxPages = Some (Inr products, fetched)) \<and>
   (n < maxPages \<and> listingPage env n = Inl e \<longrightarrow>
      scrapeLoop env maxPages n products fetched = Some (Inl e, products, fetched @ [n])) \<and>
   (n < maxPages \<and> (\<forall>k<n. fullPage env k) \<and> listingPage env n = Inl e \<longrightarrow>
      (\<exists>collected blocks.
         scrapeLoop env maxPages 0 [] [] = Some (Inl e, collected, [0..<Suc n]) \<and>
         scrapeEquipment env maxPages = Some (Inr collected, [0..<Suc n]) \<and>
         collected = concat blocks \<and> samePages env blocks [0..<n]))"
proof (intro conjI impI)
  show "\<exists>products fetched. scrapeEquipment env maxPages = Some (Inr products, fetched)"
    using scrapeEquipment_shape [of env maxPages] by blast
next
  assume "n < maxPages \<and> listingPage env n = Inl e"
  then have "crawlShape env maxPages n products fetched (Inl e) products (Suc n) [[]]"
    by (intro scrapeLoop_fail fetchTiles_fail) simp_all
  then show "scrapeLoop env maxPages n products fetched = Some (Inl e, products, fetched @ [n])"
    by (simp add: crawlShape_def)
next
  assume h: "n < maxPages \<and> (\<forall>k<n. fullPage env k) \<and> listingPage env n = Inl e"
  then have fail: "fetchTiles env n = Inl e" by (simp add: fetchTiles_fail)
  then have nf: "\<not> fullPage env n" by (simp add: fullPage_def)
  obtain out collected m blocks where s:
      "scrapeLoop env maxPages 0 [] [] = Some (out, collected, [0..<m])"
      "scrapeEquipment env maxPages = Some (Inr collected, [0..<m])"
      "0 < maxPages \<longrightarrow> 0 < m"
      "\<forall>k. Suc k < m \<longrightarrow> fullPage env k"
      "0 < m \<and> m < maxPages \<longrightarrow> \<not> fullPage env (m - 1)"
      "\<forall>e. (out = Inl e) = (0 < m \<and> fetchTiles env (m - 1) = Inl e)"
      "collected = concat blocks" "samePages env blocks [0..<m]"
    using scrapeEquipment_shape [of env maxPages] by blast
  from h s(3) have m0: "0 < m" by simp
  have "n < m"
  proof (rule ccontr)
    assume "\<not> n < m"
    with h m0 have "m < maxPages" "m - 1 < n" by simp_all
    with h s(5) m0 show False by simp
  qed
  with s(4) nf have m: "m = Suc n" by (intro last_page [where P = "fullPage env"]) simp_all
  with s(6) fail have out: "out = Inl e" by simp
  from samePages_last [of env blocks n] s(8) m obtain front b where
    b: "blocks = front @ [b]" "samePages env front [0..<n]" "mset b = mset (pageRecords env n)"
    by blast
  from b(3) fail have "b = []" by (simp add: pageRecords_def)
  with s(7) b(1) have "collected = concat front" by simp
  with s(1,2) m out b(2) show "\<exists>collected blocks.
         scrapeLoop env maxPages 0 [] [] = Some (Inl e, collected, [0..<Suc n]) \<and>
         scrapeEquipment env maxPages = Some (Inr collected, [0..<Suc n]) \<and>
         collected = concat blocks \<and> samePages env blocks [0..<n]"
    by blast
qed

theorem scrapeEquipment_request_failure_witness:
  "(\<exists>collected. scrapeEquipment failingSite 50 = Some (Inr collected, [0, 1]) \<and>
      length collected = 12 \<and>
      mset collected = mset (replicate 12 (enriched failingSite (mkProduct tileA)))) \<and>
   scrapeLoop failingSite 50 1 [] [0] = Some (Inl (HttpStatus 503), [], [0, 1])"
proof -
  note t = scrapeEquipment_request_failure [of failingSite 50 1 "HttpStatus 503" "[]" "[0]"]
  have a: "(1::nat) < 50" by simp
  have b: "\<forall>k<1. fullPage failingSite k"
  proof (intro allI impI)
    fix k :: nat assume "k < 1"
    then have "k = 0" by simp
    moreover have "fullPage failingSite 0" by code_simp
    ultimately show "fullPage failingSite k" by simp
  qed
  have c: "listingPage failingSite 1 = Inl (HttpStatus 503)" by (simp add: failingSite_def)
  from t a c have loop: "scrapeLoop failingSite 50 1 [] [0] = Some (Inl (HttpStatus 503), [], [0, 1])"
    by simp
  from t a b c obtain collected blocks where r:
      "scrapeEquipment failingSite 50 = Some (Inr collected, [0..<Suc 1])"
      "collected = concat blocks" "samePages failingSite blocks [0..<1]"
    by blast
  have u: "[0..<Suc 1] = [0, 1::nat]" "[0..<1] = [0::nat]" by (simp_all add: upt_rec)
  from r(3) obtain b0 where b0: "blocks = [b0]" "mset b0 = mset (pageRecords failingSite 0)"
    by (auto simp: samePages_def u list_all2_Cons2)
  have p: "pageRecords failingSite 0 = replicate 12 (enriched failingSite (mkProduct tileA))"
    by (simp add: pageRecords_def fetchTiles_def failingSite_def)
  from r(2) b0 p have m: "mset collected = mset (replicate 12 (enriched failingSite (mkProduct tileA)))"
    by simp
  then have "size (mset collected) = 12" by simp
  then have "length collected = 12" by simp
  with r(1) u m loop show ?thesis by auto
qed

text \<open>
  Claim C9. Every listing \<open>scrapeInventoryListings\<close> returns has a title, make or
  model that is not empty. The result is, page by page, the cleaned cards that pass
  the filter, so it has at most as many listings as cards were parsed, and fewer for
  the example browser, whose page has a card with all three fields empty.
\<close>

theorem scrapeInventoryListings_meaningful:
  "(\<forall>l\<in>set (fst (scrapeInventoryListings env)).
      title l \<noteq> [] \<or> listingMake l \<noteq> [] \<or> listingModel l \<noteq> []) \<and>
   fst (scrapeInventoryListings env) =
     concat (map (pageListings env) (filter (scraped env) (snd (scrapeInventoryListings env)))) \<and>
   length (fst (scrapeInventoryListings env)) \<le> tilesParsed env (snd (scrapeInventoryListings env)) \<and>
   length (fst (scrapeInventoryListings exampleBrowser)) <
     tilesParsed exampleBrowser (snd (scrapeInventoryListings exampleBrowser))"
proof -
  obtain m where m: "snd (scrapeInventoryListings env) = [1..<m]"
    "fst (scrapeInventoryListings env) =
         concat (map (pageListings env) (filter (scraped env) [1..<m]))"
    using scrapeInventoryListings_shape [of env] by blast
  have a: "\<forall>l\<in>set (fst (scrapeInventoryListings env)).
      title l \<noteq> [] \<or> listingMake l \<noteq> [] \<or> listingModel l \<noteq> []"
  proof
    fix l assume "l \<in> set (fst (scrapeInventoryListings env))"
    with m(2) obtain k where "l \<in> set (pageListings env k)" by auto
    then have "meaningful l" by (rule pageListings_meaningful)
    then show "title l \<noteq> [] \<or> listingMake l \<noteq> [] \<or> listingModel l \<noteq> []"
      by (auto simp: meaningful_def)
  qed
  have b: "fst (scrapeInventoryListings env) =
     concat (map (pageListings env) (filter (scraped env) (snd (scrapeInventoryListings env))))"
    using m by simp
  have c: "length (fst (scrapeInventoryListings env)) \<le> tilesParsed env (snd (scrapeInventoryListings env))"
    unfolding tilesParsed_def by (subst b) (rule length_concat_pageListings)
  have d: "length (fst (scrapeInventoryListings exampleBrowser)) <
     tilesParsed exampleBrowser (snd (scrapeInventoryListings exampleBrowser))"
    by code_simp
  from a b c d show ?thesis by blast
qed

theorem scrapeInventoryListings_meaningful_witness:
  "fst (scrapeInventoryListings exampleBrowser) =
     [\<lparr>title = ''2025 JOHN DEERE 9RX 640'', listingMake = ''JOHN DEERE'', listingModel = ''9RX 640''\<rparr>] \<and>
   tilesParsed exampleBrowser (snd (scrapeInventoryListings exampleBrowser)) = 2 \<and>
   length (fst (scrapeInventoryListings exampleBrowser)) \<le>
     tilesParsed exampleBrowser (snd (scrapeInventoryListings exampleBrowser))"
proof -
  have e: "fst (scrapeInventoryListings exampleBrowser) =
     [\<lparr>title = ''2025 JOHN DEERE 9RX 640'', listingMake = ''JOHN DEERE'', listingModel = ''9RX 640''\<rparr>]"
    by code_simp
  have t: "tilesParsed exampleBrowser (snd (scrapeInventoryListings exampleBrowser)) = 2"
    by code_simp
  from scrapeInventoryListings_meaningful [of exampleBrowser]
  have "length (fst (scrapeInventoryListings exampleBrowser)) \<le>
     tilesParsed exampleBrowser (snd (scrapeInventoryListings exampleBrowser))" by blast
  with e t show ?thesis by blast
qed

subsection \<open>Cross-Source Matcher\<close>

lemma createMatchKey_length:
  "length (createMatchKey it) =
     3 + length (orEmpty (itemYear it)) + length (normalize (orEmpty (itemMake it))) +
     length (normalize (orEmpty (itemModel it))) + length (normalize (orEmpty (itemLocation it)))"
  by (simp add: createMatchKey_def Let_def)

lemma createMatchKey_all_empty:
  "(createMatchKey it = ''|||'') =
     (orEmpty (itemYear it) = [] \<and> normalize (orEmpty (itemMake it)) = [] \<and>
      normalize (orEmpty (itemModel it)) = [] \<and> normalize (orEmpty (itemLocation it)) = [])"
proof
  assume "createMatchKey it = ''|||''"
  then have "length (createMatchKey it) = 3" by simp
  then show "orEmpty (itemYear it) = [] \<and> normalize (orEmpty (itemMake it)) = [] \<and>
      normalize (orEmpty (itemModel it)) = [] \<and> normalize (orEmpty (itemLocation it)) = []"
    by (simp add: createMatchKey_length)
next
  assume "orEmpty (itemYear it) = [] \<and> normalize (orEmpty (itemMake it)) = [] \<and>
      normalize (orEmpty (itemModel it)) = [] \<and> normalize (orEmpty (itemLocation it)) = []"
  then show "createMatchKey it = ''|||''" by (simp add: createMatchKey_def Let_def)
qed

lemma usableKey_createMatchKey:
  "usableKey (createMatchKey it) = (createMatchKey it \<noteq> ''|||'')"
proof -
  have "length (createMatchKey it) \<noteq> 0" by (simp add: createMatchKey_length)
  then show ?thesis by (auto simp: usableKey_def)
qed

lemma buildUsedKeys_lookup:
  "(buildUsedKeys its m key \<noteq> None) =
     (m key \<noteq> None \<or> (usableKey key \<and> key \<in> createMatchKey ` set its))"
  by (induction its arbitrary: m) (auto simp: Let_def)

lemma countDuplicates_filter:
  "countDuplicates m its d =
     d + length (filter (\<lambda>it. usableKey (createMatchKey it) \<and> m (createMatchKey it) \<noteq> None) its)"
  by (induction its arbitrary: d) (simp_all add: Let_def)

lemma duplicates_detectDuplicates:
  "duplicates (detectDuplicates usedItems tractorHouseItems) =
     length (filter (\<lambda>b. createMatchKey b \<noteq> ''|||'' \<and>
                          createMatchKey b \<in> createMatchKey ` set usedItems) tractorHouseItems)"
proof -
  have "(\<lambda>it. usableKey (createMatchKey it) \<and>
              buildUsedKeys usedItems Map.empty (createMatchKey it) \<noteq> None) =
        (\<lambda>b. createMatchKey b \<noteq> ''|||'' \<and> createMatchKey b \<in> createMatchKey ` set usedItems)"
    using buildUsedKeys_lookup [of usedItems Map.empty]
    by (auto simp: usableKey_createMatchKey)
  then show ?thesis
    by (simp add: detectDuplicates_def Let_def countDuplicates_filter)
qed

text \<open>
  Claim C1, as amended. The match key of a record is \<open>|||\<close> exactly when all four of
  its components are empty. The lookup built from the used items holds a key exactly
  when the key is not \<open>|||\<close> and is the key of a used item: a record is skipped when
  all its components are empty, and kept when only some are. The duplicates are the
  Tractor House records whose key is not \<open>|||\<close> and is the key of a used item.
\<close>

theorem detectDuplicates_all_empty_key:
  "(createMatchKey it = ''|||'') =
     (orEmpty (itemYear it) = [] \<and> normalize (orEmpty (itemMake it)) = [] \<and>
      normalize (orEmpty (itemModel it)) = [] \<and> normalize (orEmpty (itemLocation it)) = []) \<and>
   (buildUsedKeys usedItems Map.empty key \<noteq> None) =
     (key \<noteq> [] \<and> key \<noteq> ''|||'' \<and> key \<in> createMatchKey ` set usedItems) \<and>
   duplicates (detectDuplicates usedItems tractorHouseItems) =
     length (filter (\<lambda>b. createMatchKey b \<noteq> ''|||'' \<and>
                          createMatchKey b \<in> createMatchKey ` set usedItems) tractorHouseItems)"
  using buildUsedKeys_lookup [of usedItems Map.empty key]
  by (simp add: createMatchKey_all_empty usableKey_def duplicates_detectDuplicates)

text \<open>
  Claim C1 as stated fails: a record without a year, its other components present, is
  stored in the lookup and counts as a duplicate of its identical counterpart.
\<close>

theorem detectDuplicates_empty_component_counterexample:
  "orEmpty (itemYear noYear) = [] \<and>
   createMatchKey noYear = ''|JOHN DEERE|5095M|GRETNA'' \<and>
   buildUsedKeys [noYear] Map.empty (createMatchKey noYear) = Some noYear \<and>
   duplicates (detectDuplicates [noYear] [noYear]) = 1"
  by code_simp

text \<open>
  Claim C4, as amended. The overlap is the duplicates divided by the number of used
  items (the set the lookup is built from), times 100, and the number 0 when there are
  no used items. With no Tractor House items there are no duplicates, and the overlap
  is zero: the number 0, or the text of 0 when there are used items.
\<close>

theorem detectDuplicates_overlap:
  "overlapPercent (detectDuplicates usedItems tractorHouseItems) =
     (if usedItems = [] then Number 0
      else ToFixed1 (of_nat (duplicates (detectDuplicates usedItems tractorHouseItems)) /
                     of_nat (length usedItems) * 100)) \<and>
   duplicates (detectDuplicates usedItems []) = 0 \<and>
   overlapPercent (detectDuplicates usedItems []) =
     (if usedItems = [] then Number 0 else ToFixed1 0)"
  by (simp add: detectDuplicates_def Let_def)

text \<open>
  Claim C4 as stated fails: with two used items and one Tractor House item that matches
  one of them, the overlap is 50, where the duplicates over the size of the second set
  are 100 percent.
\<close>

theorem detectDuplicates_overlap_counterexample:
  "duplicates (detectDuplicates [tractor1, tractor2] [tractor1]) = 1 \<and>
   overlapPercent (detectDuplicates [tractor1, tractor2] [tractor1]) = ToFixed1 50 \<and>
   (of_nat (duplicates (detectDuplicates [tractor1, tractor2] [tractor1])) /
      of_nat (length [tractor1]) * 100 :: rat) = 100"
  by code_simp

subsection \<open>Location Aggregator\<close>

lemma countRow_at:
  "\<exists>st'. locationStats (countRow isTH sn it loc a) loc = Some st' \<and>
         total_l st' = total_l (statOrZero a loc) + 1 \<and>
         sourceSum st' = sourceSum (statOrZero a loc) + (if attributed isTH sn then 1 else 0)"
  by (simp add: countRow_def statOrZero_def sourceSum_def attributed_def Let_def
      split: option.splits)

lemma countRow_other:
  "loc' \<noteq> loc \<Longrightarrow> locationStats (countRow isTH sn it loc a) loc' = locationStats a loc'"
  by (simp add: countRow_def Let_def)

lemma countRow_bounded:
  assumes "countersBounded a"
  shows "countersBounded (countRow isTH sn it loc a)"
  unfolding countersBounded_def
proof (intro allI impI)
  fix loc' st
  assume h: "locationStats (countRow isTH sn it loc a) loc' = Some st"
  show "sourceSum st \<le> total_l st"
  proof (cases "loc' = loc")
    case True
    from countRow_at [of isTH sn it loc a] obtain st' where
      s: "locationStats (countRow isTH sn it loc a) loc = Some st'"
        "total_l st' = total_l (statOrZero a loc) + 1"
        "sourceSum st' = sourceSum (statOrZero a loc) + (if attributed isTH sn then 1 else 0)"
      by blast
    have "sourceSum (statOrZero a loc) \<le> total_l (statOrZero a loc)"
      using assms by (auto simp: countersBounded_def statOrZero_def sourceSum_def split: option.splits)
    with s h True show ?thesis by (simp split: if_splits)
  next
    case False
    with h have "locationStats a loc' = Some st" by (simp add: countRow_other)
    with assms show ?thesis by (simp add: countersBounded_def)
  qed
qed

lemma processRow_bounded:
  "countersBounded a \<Longrightarrow> countersBounded (processRow isTH sn headers cells a)"
  by (simp add: processRow_def countRow_bounded split: prod.splits option.splits)

lemma fold_processRow_bounded:
  "countersBounded a \<Longrightarrow> countersBounded (fold (processRow isTH sn headers) rows a)"
  by (induction rows arbitrary: a) (simp_all add: processRow_bounded)

lemma processSheet_bounded:
  "countersBounded a \<Longrightarrow> countersBounded (processSheet isTH ws a)"
  by (simp add: processSheet_def fold_processRow_bounded)

lemma fold_processSheet_bounded:
  "countersBounded a \<Longrightarrow> countersBounded (fold (processSheet isTH) wss a)"
  by (induction wss arbitrary: a) (simp_all add: processSheet_bounded)

lemma processFiles_bounded:
  "countersBounded a \<Longrightarrow> processFiles files a = Inr a' \<Longrightarrow> countersBounded a'"
proof (induction files arbitrary: a)
  case Nil
  then show ?case by simp
next
  case (Cons f files)
  obtain filename content where f: "f = (filename, content)" by (cases f)
  show ?case
  proof (cases content)
    case (Inl e)
    with Cons.prems f show ?thesis by simp
  next
    case (Inr wss)
    with Cons.prems f have
      "processFiles files (fold (processSheet (includesStr filename ''tractor-house'')) wss a) = Inr a'"
      by simp
    moreover have "countersBounded (fold (processSheet (includesStr filename ''tractor-house'')) wss a)"
      using Cons.prems(1) by (rule fold_processSheet_bounded)
    ultimately show ?thesis using Cons.IH by blast
  qed
qed

text \<open>
  Claim C10. For every location entry of the analysis, the per-source counters sum to
  at most the total. Counting a row adds 1 to the total of its location, and adds 1 to
  the sum of the per-source counters when the sheet matches a source category, nothing
  otherwise.
\<close>

theorem analyzeExcelData_counters:
  "(analyzeExcelData filenames = Inr a \<and> locationStats a loc = Some st \<longrightarrow>
      new_l st + used_l st + tractorHouse_l st \<le> total_l st) \<and>
   (\<exists>st'. locationStats (countRow isTractorHouse sheet it loc a) loc = Some st' \<and>
          total_l st' = total_l (statOrZero a loc) + 1 \<and>
          sourceSum st' = sourceSum (statOrZero a loc) +
            (if attributed isTractorHouse sheet then 1 else 0))"
proof (intro conjI impI)
  assume h: "analyzeExcelData filenames = Inr a \<and> locationStats a loc = Some st"
  have "countersBounded \<lparr>locationStats = Map.empty,
        totalByType = \<lparr>new_t = 0, used_t = 0, tractorHouse_t = 0\<rparr>,
        allUsed = [], allTractorHouse = [], totalProducts = 0\<rparr>"
    by (simp add: countersBounded_def)
  with h have "countersBounded a"
    unfolding analyzeExcelData_def by (blast intro: processFiles_bounded)
  with h show "new_l st + used_l st + tractorHouse_l st \<le> total_l st"
    by (auto simp: countersBounded_def sourceSum_def)
next
  show "\<exists>st'. locationStats (countRow isTractorHouse sheet it loc a) loc = Some st' \<and>
          total_l st' = total_l (statOrZero a loc) + 1 \<and>
          sourceSum st' = sourceSum (statOrZero a loc) +
            (if attributed isTractorHouse sheet then 1 else 0)"
    by (rule countRow_at)
qed

lemma exampleFiles_result:
  "case analyzeExcelData exampleFiles of
     Inl e \<Rightarrow> False
   | Inr a \<Rightarrow> locationStats a ''GRETNA'' =
       Some \<lparr>total_l = 2, new_l = 0, used_l = 1, tractorHouse_l = 0, coordinates = Some ''Gretna, NE''\<rparr>"
  by code_simp

theorem analyzeExcelData_counters_witness:
  "\<exists>a. analyzeExcelData exampleFiles = Inr a \<and>
       locationStats a ''GRETNA'' =
         Some \<lparr>total_l = 2, new_l = 0, used_l = 1, tractorHouse_l = 0, coordinates = Some ''Gretna, NE''\<rparr> \<and>
       (0::nat) + 1 + 0 \<le> 2"
proof -
  from exampleFiles_result obtain a where
    a: "analyzeExcelData exampleFiles = Inr a"
       "locationStats a ''GRETNA'' =
         Some \<lparr>total_l = 2, new_l = 0, used_l = 1, tractorHouse_l = 0, coordinates = Some ''Gretna, NE''\<rparr>"
    by (auto split: sum.splits)
  with analyzeExcelData_counters [of exampleFiles a "''GRETNA''"
      "\<lparr>total_l = 2, new_l = 0, used_l = 1, tractorHouse_l = 0, coordinates = Some ''Gretna, NE''\<rparr>"]
  show ?thesis by auto
qed

subsection \<open>Inventory tiers\<close>

text \<open>
  Claim C7. A location whose total is exactly 51 gets the HIGH colour from the tier
  function with thresholds 50 and 20, and the LOW colour from the tier function with
  thresholds 150 and 100. For every count, the 50/20 function gives HIGH exactly when
  the count is above 50, MEDIUM exactly when it is above 20 and at most 50, and LOW
  exactly when it is at most 20.
\<close>

theorem getColor_51:
  "getColor 51 = tierColor HIGH \<and> getColor_combined 51 = tierColor LOW \<and>
   (getColor cnt = tierColor HIGH) = (cnt > 50) \<and>
   (getColor cnt = tierColor MEDIUM) = (20 < cnt \<and> cnt \<le> 50) \<and>
   (getColor cnt = tierColor LOW) = (cnt \<le> 20)"
  by (simp add: getColor_def getColor_combined_def tierColor_def)

end
